theory Spec2Isabelle
  imports Main "HOL-Library.Sublist"
begin

section \<open>JavaScript string primitives used by the dashboard\<close>

text \<open>
  Strings are lists of characters, one \<^typ>\<open>char\<close> per code unit.
  \<^verbatim>\<open>s.startsWith(p)\<close> is the prefix test.  \<^verbatim>\<open>s.replace(/\/$/, "")\<close> removes one
  slash at the very end of \<open>s\<close> and nothing else: the pattern has no \<^verbatim>\<open>g\<close> flag and
  \<^verbatim>\<open>$\<close> without the \<^verbatim>\<open>m\<close> flag matches only at the end of the input.
\<close>

definition startsWith :: "string \<Rightarrow> string \<Rightarrow> bool" where
  "startsWith s p = prefix p s"

definition strip_trailing_slash :: "string \<Rightarrow> string" where
  "strip_trailing_slash s = (if s \<noteq> [] \<and> last s = CHR ''/'' then butlast s else s)"

text \<open>
  The text that the list pages search is a list of code units of any type \<open>'c\<close>, so that
  every JavaScript string can be written.  \<^verbatim>\<open>s.includes(t)\<close> is the test for a contiguous
  occurrence.  \<^verbatim>\<open>s.toLowerCase()\<close> is a built-in of the platform, not code of the
  dashboard: the functions that call it take it as the parameter \<open>toLowerCase\<close>, which may
  be any function on strings.  \<^verbatim>\<open>s.trim()\<close> removes white space and line terminators at
  both ends.
\<close>

definition string_includes :: "'c list \<Rightarrow> 'c list \<Rightarrow> bool" where
  "string_includes s t = sublist t s"

definition is_space :: "char \<Rightarrow> bool" where
  "is_space c = ((of_char c :: nat) \<in> {9, 10, 11, 12, 13, 32, 160})"

definition trim :: "string \<Rightarrow> string" where
  "trim s = rev (dropWhile is_space (rev (dropWhile is_space s)))"

section \<open>lib/api: base URL and image reference resolution\<close>

text \<open>
  \<^verbatim>\<open>const API_BASE_URL = process.env.NEXT_PUBLIC_API_BASE_URL || "http://192.168.1.154:9000/"\<close>.
  The environment variable is the parameter \<open>env\<close>: \<open>None\<close> when it is not set.  An
  empty value is falsy, so it selects the default as well.
\<close>

definition API_BASE_URL :: "string option \<Rightarrow> string" where
  "API_BASE_URL env =
     (case env of
        None \<Rightarrow> ''http://192.168.1.154:9000/''
      | Some v \<Rightarrow> if v = [] then ''http://192.168.1.154:9000/'' else v)"

definition getImageUrl :: "string option \<Rightarrow> string \<Rightarrow> string" where
  "getImageUrl env imagePath =
     (if imagePath = [] then []
      else if startsWith imagePath ''http://'' \<or> startsWith imagePath ''https://''
        then imagePath
      else if startsWith imagePath ''/''
        then strip_trailing_slash (API_BASE_URL env) @ imagePath
      else strip_trailing_slash (API_BASE_URL env) @ ''/uploads/'' @ imagePath)"

section \<open>Values on the wire\<close>

text \<open>
  What the backend sends and what the client posts is JSON; the API client handles it as
  \<^verbatim>\<open>any\<close>.  \<open>JUndefined\<close> is the value of a property that is absent.  An object is
  the list of its properties in insertion order, read with \<^const>\<open>map_of\<close>.
\<close>

datatype json =
    JUndefined
  | JNull
  | JBool bool
  | JNum int
  | JStr string
  | JArr "json list"
  | JObj "(string \<times> json) list"

datatype js_error =
    TypeError
  | Error string
  | AxiosError "(nat \<times> json) option"

fun truthy :: "json \<Rightarrow> bool" where
  "truthy JUndefined = False"
| "truthy JNull = False"
| "truthy (JBool b) = b"
| "truthy (JNum n) = (n \<noteq> 0)"
| "truthy (JStr s) = (s \<noteq> [])"
| "truthy (JArr xs) = True"
| "truthy (JObj kvs) = True"

definition js_or :: "json \<Rightarrow> json \<Rightarrow> json" where
  "js_or a b = (if truthy a then a else b)"

definition js_and :: "json \<Rightarrow> json \<Rightarrow> json" where
  "js_and a b = (if truthy a then b else a)"

fun isArray :: "json \<Rightarrow> bool" where
  "isArray (JArr xs) = True"
| "isArray v = False"

text \<open>
  Reading a property: a \<^verbatim>\<open>TypeError\<close> on \<^verbatim>\<open>null\<close> and \<^verbatim>\<open>undefined\<close>, the stored value
  on an object.  The names this program reads (\<^verbatim>\<open>_id\<close>, \<^verbatim>\<open>id\<close>, \<^verbatim>\<open>additionalTags\<close>,
  \<^verbatim>\<open>data\<close>, \<^verbatim>\<open>success\<close>, \<^verbatim>\<open>url\<close>) are defined on no array, string, number or boolean.
\<close>

fun get_prop :: "json \<Rightarrow> string \<Rightarrow> js_error + json" where
  "get_prop JUndefined k = Inl TypeError"
| "get_prop JNull k = Inl TypeError"
| "get_prop (JObj kvs) k = Inr (case map_of kvs k of None \<Rightarrow> JUndefined | Some v \<Rightarrow> v)"
| "get_prop v k = Inr JUndefined"

fun set_prop :: "string \<Rightarrow> 'a \<Rightarrow> (string \<times> 'a) list \<Rightarrow> (string \<times> 'a) list" where
  "set_prop k v [] = [(k, v)]"
| "set_prop k v ((k', v') # kvs) =
     (if k = k' then (k, v) # kvs else (k', v') # set_prop k v kvs)"

fun string_of_nat :: "nat \<Rightarrow> string" where
  "string_of_nat n =
     (if n < 10 then [char_of (48 + n)]
      else string_of_nat (n div 10) @ [char_of (48 + n mod 10)])"

text \<open>
  The properties an object spread \<^verbatim>\<open>{...v}\<close> copies: those of an object, the indexed
  elements of an array or a string, none of any other value.
\<close>

fun own_entries :: "json \<Rightarrow> (string \<times> json) list" where
  "own_entries (JObj kvs) = kvs"
| "own_entries (JArr xs) = zip (map string_of_nat [0..<length xs]) xs"
| "own_entries (JStr s) = zip (map string_of_nat [0..<length s]) (map (\<lambda>c. JStr [c]) s)"
| "own_entries v = []"

text \<open>\<^verbatim>\<open>xs.map(f)\<close> where \<open>f\<close> may throw: the first exception ends the traversal.\<close>

fun array_map :: "('a \<Rightarrow> js_error + 'b) \<Rightarrow> 'a list \<Rightarrow> js_error + 'b list" where
  "array_map f [] = Inr []"
| "array_map f (x # xs) =
     (case f x of
        Inl e \<Rightarrow> Inl e
      | Inr y \<Rightarrow> (case array_map f xs of Inl e \<Rightarrow> Inl e | Inr ys \<Rightarrow> Inr (y # ys)))"

section \<open>lib/api: the HTTP client and its interceptors\<close>

text \<open>
  The browser state the client touches is the cookie jar and the window location.  The
  backend is any function from the exchanges so far and the request to an outcome; every
  exchange is recorded in order, each one complete before the next request is built, as
  \<^verbatim>\<open>await\<close> sequences them.  \<open>req_url\<close> is the path below the base URL.
\<close>

datatype http_method = GET | POST | PUT | DELETE

record File =
  file_name :: string
  file_type :: string
  file_size :: nat

datatype body = NoBody | JsonBody json | FormData "(string \<times> File) list"

record request =
  req_method :: http_method
  req_url :: string
  req_headers :: "(string \<times> string) list"
  req_body :: body

datatype outcome = Response nat json | NoResponse

type_synonym exchange = "request \<times> outcome"

type_synonym backend = "exchange list \<Rightarrow> request \<Rightarrow> outcome"

record world =
  cookies :: "string \<Rightarrow> string option"
  location_href :: string
  exchanges :: "exchange list"

definition request_interceptor :: "world \<Rightarrow> request \<Rightarrow> request" where
  "request_interceptor w config =
     (case cookies w ''admin_token'' of
        None \<Rightarrow> config
      | Some token \<Rightarrow>
          if token \<noteq> []
          then config\<lparr>req_headers :=
                 set_prop ''Authorization'' (''Bearer '' @ token) (req_headers config)\<rparr>
          else config)"

definition response_rejected :: "js_error \<Rightarrow> world \<Rightarrow> world" where
  "response_rejected error w =
     (case error of
        AxiosError (Some (status, d)) \<Rightarrow>
          if status = 401
          then w\<lparr>cookies := (cookies w)(''admin_token'' := None), location_href := ''/login''\<rparr>
          else w
      | _ \<Rightarrow> w)"

text \<open>
  One request through the axios instance, returning \<^verbatim>\<open>response.data\<close>.  Axios resolves a
  response whose status is in 200..299 and rejects every other one, and a request without
  a response (network error, timeout), through the rejection handler.
\<close>

definition client_request :: "backend \<Rightarrow> world \<Rightarrow> request \<Rightarrow> (js_error + json) \<times> world" where
  "client_request backend w config =
     (let req = request_interceptor w config;
          out = backend (exchanges w) req;
          w' = w\<lparr>exchanges := exchanges w @ [(req, out)]\<rparr>
      in case out of
           Response status d \<Rightarrow>
             if 200 \<le> status \<and> status < 300 then (Inr d, w')
             else (Inl (AxiosError (Some (status, d))),
                   response_rejected (AxiosError (Some (status, d))) w')
         | NoResponse \<Rightarrow>
             (Inl (AxiosError None), response_rejected (AxiosError None) w'))"

definition client_get :: "backend \<Rightarrow> world \<Rightarrow> string \<Rightarrow> (js_error + json) \<times> world" where
  "client_get backend w url =
     client_request backend w
       \<lparr>req_method = GET, req_url = url,
        req_headers = [(''Content-Type'', ''application/json'')], req_body = NoBody\<rparr>"

definition client_post :: "backend \<Rightarrow> world \<Rightarrow> string \<Rightarrow> json \<Rightarrow> (js_error + json) \<times> world" where
  "client_post backend w url d =
     client_request backend w
       \<lparr>req_method = POST, req_url = url,
        req_headers = [(''Content-Type'', ''application/json'')], req_body = JsonBody d\<rparr>"

definition client_put :: "backend \<Rightarrow> world \<Rightarrow> string \<Rightarrow> json \<Rightarrow> (js_error + json) \<times> world" where
  "client_put backend w url d =
     client_request backend w
       \<lparr>req_method = PUT, req_url = url,
        req_headers = [(''Content-Type'', ''application/json'')], req_body = JsonBody d\<rparr>"

definition client_delete :: "backend \<Rightarrow> world \<Rightarrow> string \<Rightarrow> json \<Rightarrow> (js_error + json) \<times> world" where
  "client_delete backend w url d =
     client_request backend w
       \<lparr>req_method = DELETE, req_url = url,
        req_headers = [(''Content-Type'', ''application/json'')], req_body = JsonBody d\<rparr>"

section \<open>lib/api: the resource operations\<close>

text \<open>
  \<^verbatim>\<open>login\<close> walks its list of endpoints; a rejected request is caught and the loop goes on,
  a resolved one returns from inside the loop.  The \<^verbatim>\<open>console.log\<close> calls change no state
  and are left out.
\<close>

definition login_endpoints :: "string list" where
  "login_endpoints =
     [''/admin/auth/login'', ''/admin/login'', ''/auth/login'', ''/adminAuth/login'',
      ''/userAuth/login'']"

fun login_loop ::
  "backend \<Rightarrow> world \<Rightarrow> string \<Rightarrow> string \<Rightarrow> string list \<Rightarrow> (js_error + json) \<times> world" where
  "login_loop backend w username password [] = (Inl (Error ''All login endpoints failed''), w)"
| "login_loop backend w username password (endpoint # rest) =
     (case client_post backend w endpoint
             (JObj [(''username'', JStr username), (''password'', JStr password)]) of
        (Inr d, w') \<Rightarrow> (Inr d, w')
      | (Inl e, w') \<Rightarrow> login_loop backend w' username password rest)"

definition login :: "backend \<Rightarrow> world \<Rightarrow> string \<Rightarrow> string \<Rightarrow> (js_error + json) \<times> world" where
  "login backend w username password = login_loop backend w username password login_endpoints"

text \<open>
  The callbacks of the three list operations.
  \<^verbatim>\<open>{...game, id: game._id || game.id, additionalTags: (game.additionalTags || []).filter(...)}\<close>
  throws on a \<^verbatim>\<open>null\<close> element, and where \<^verbatim>\<open>additionalTags\<close> is a truthy value that is
  not an array and so has no \<^verbatim>\<open>filter\<close>.
\<close>

definition getGames_map :: "json \<Rightarrow> js_error + json" where
  "getGames_map game =
     (case (get_prop game ''_id'', get_prop game ''id'', get_prop game ''additionalTags'') of
        (Inr uid, Inr i, Inr tags) \<Rightarrow>
          (case js_or tags (JArr []) of
             JArr ts \<Rightarrow>
               Inr (JObj (set_prop ''additionalTags''
                            (JArr (filter (\<lambda>tag. tag \<noteq> JNull \<and> tag \<noteq> JUndefined) ts))
                            (set_prop ''id'' (js_or uid i) (own_entries game))))
           | _ \<Rightarrow> Inl TypeError)
      | _ \<Rightarrow> Inl TypeError)"

definition id_map :: "json \<Rightarrow> js_error + json" where
  "id_map x =
     (case (get_prop x ''_id'', get_prop x ''id'') of
        (Inr uid, Inr i) \<Rightarrow> Inr (JObj (set_prop ''id'' (js_or uid i) (own_entries x)))
      | _ \<Rightarrow> Inl TypeError)"

definition map_if_array ::
  "(json \<Rightarrow> js_error + json) \<Rightarrow> (js_error + json) \<times> world \<Rightarrow> (js_error + json) \<times> world" where
  "map_if_array f r =
     (case r of
        (Inl e, w') \<Rightarrow> (Inl e, w')
      | (Inr (JArr xs), w') \<Rightarrow>
          (case array_map f xs of Inl e \<Rightarrow> (Inl e, w') | Inr ys \<Rightarrow> (Inr (JArr ys), w'))
      | (Inr d, w') \<Rightarrow> (Inr d, w'))"

definition getGames :: "backend \<Rightarrow> world \<Rightarrow> (js_error + json) \<times> world" where
  "getGames backend w = map_if_array getGames_map (client_get backend w ''/admin/games/game'')"

definition createGame :: "backend \<Rightarrow> world \<Rightarrow> json \<Rightarrow> (js_error + json) \<times> world" where
  "createGame backend w gameData = client_post backend w ''/admin/games/game'' gameData"

definition updateGame :: "backend \<Rightarrow> world \<Rightarrow> json \<Rightarrow> (js_error + json) \<times> world" where
  "updateGame backend w gameData = client_put backend w ''/admin/games/game'' gameData"

definition getAdditionalTags :: "backend \<Rightarrow> world \<Rightarrow> (js_error + json) \<times> world" where
  "getAdditionalTags backend w =
     map_if_array id_map (client_get backend w ''/admin/games/additional_tags'')"

text \<open>\<^verbatim>\<open>createAdditionalTag(name: string)\<close> has one parameter and posts \<^verbatim>\<open>{name}\<close>.\<close>

definition createAdditionalTag :: "backend \<Rightarrow> world \<Rightarrow> string \<Rightarrow> (js_error + json) \<times> world" where
  "createAdditionalTag backend w name =
     client_post backend w ''/admin/games/additional_tags'' (JObj [(''name'', JStr name)])"

definition deleteAdditionalTag :: "backend \<Rightarrow> world \<Rightarrow> string \<Rightarrow> (js_error + json) \<times> world" where
  "deleteAdditionalTag backend w ident =
     client_delete backend w ''/admin/games/additional_tags'' (JObj [(''id'', JStr ident)])"

definition getUsers :: "backend \<Rightarrow> world \<Rightarrow> (js_error + json) \<times> world" where
  "getUsers backend w = map_if_array id_map (client_get backend w ''/admin/user'')"

definition setSubscription ::
  "backend \<Rightarrow> world \<Rightarrow> string \<Rightarrow> bool \<Rightarrow> (js_error + json) \<times> world" where
  "setSubscription backend w userId isSubscribed =
     client_put backend w ''/admin/user/set_subscription''
       (JObj [(''id'', JStr userId), (''isSubscribed'', JBool isSubscribed)])"

definition uploadImage :: "backend \<Rightarrow> world \<Rightarrow> File \<Rightarrow> (js_error + json) \<times> world" where
  "uploadImage backend w f =
     client_request backend w
       \<lparr>req_method = POST, req_url = ''/admin/games/upload/picture'',
        req_headers = [(''Content-Type'', ''multipart/form-data'')],
        req_body = FormData [(''image'', f)]\<rparr>"

text \<open>Every operation of the client, as one call.\<close>

datatype api_call =
    Login string string
  | GetGames
  | CreateGame json
  | UpdateGame json
  | GetAdditionalTags
  | CreateAdditionalTag string
  | DeleteAdditionalTag string
  | GetUsers
  | SetSubscription string bool
  | UploadImage File

fun run_api :: "backend \<Rightarrow> world \<Rightarrow> api_call \<Rightarrow> (js_error + json) \<times> world" where
  "run_api backend w (Login username password) = login backend w username password"
| "run_api backend w GetGames = getGames backend w"
| "run_api backend w (CreateGame gameData) = createGame backend w gameData"
| "run_api backend w (UpdateGame gameData) = updateGame backend w gameData"
| "run_api backend w GetAdditionalTags = getAdditionalTags backend w"
| "run_api backend w (CreateAdditionalTag name) = createAdditionalTag backend w name"
| "run_api backend w (DeleteAdditionalTag ident) = deleteAdditionalTag backend w ident"
| "run_api backend w GetUsers = getUsers backend w"
| "run_api backend w (SetSubscription userId isSubscribed) =
     setSubscription backend w userId isSubscribed"
| "run_api backend w (UploadImage f) = uploadImage backend w f"

text \<open>
  What the session store reads when the page loads (\<^verbatim>\<open>AuthProvider\<close>):
  authenticated when the \<^verbatim>\<open>admin_token\<close> cookie holds a non-empty value.
\<close>

definition isAuthenticated_on_load :: "world \<Rightarrow> bool" where
  "isAuthenticated_on_load w =
     (case cookies w ''admin_token'' of None \<Rightarrow> False | Some token \<Rightarrow> token \<noteq> [])"

text \<open>
  The callers of the list operations unwrap an envelope themselves:
  \<^verbatim>\<open>Array.isArray(response) ? response : response.data || []\<close>.
\<close>

definition list_of_response :: "json \<Rightarrow> js_error + json" where
  "list_of_response response =
     (if isArray response then Inr response
      else case get_prop response ''data'' of
             Inl e \<Rightarrow> Inl e
           | Inr d \<Rightarrow> Inr (js_or d (JArr [])))"

section \<open>lib/types: the records the components hold\<close>

text \<open>
  The interfaces of \<^verbatim>\<open>lib/types\<close>, with the fields the components read.  \<open>game_uid\<close>,
  \<open>tag_uid\<close> and \<open>user_uid\<close> are the \<^verbatim>\<open>_id\<close> fields, \<open>game_id\<close> the \<^verbatim>\<open>id\<close> that
  \<^verbatim>\<open>getGames\<close> adds.  The secondary tag references of a game are kept as wire values: the
  components themselves test them for \<^verbatim>\<open>null\<close>, \<^verbatim>\<open>undefined\<close> and object shape.
  The fields that the list pages search are text over the code units \<open>'c\<close>.
\<close>

datatype main_tag = Game | Software

datatype main_tag_filter = AllTags | MainTag main_tag

fun main_tag_str :: "main_tag \<Rightarrow> string" where
  "main_tag_str Game = ''Game''"
| "main_tag_str Software = ''Software''"

record 'c game =
  game_uid :: string
  game_id :: "string option"
  game_title :: "'c list"
  game_description :: "'c list"
  game_path :: string
  game_imageUrl :: string
  game_mainTag :: main_tag
  game_additionalTags :: "json list"
  game_youtubeLink :: "string option"
  game_gameImages :: "string list option"

record additional_tag =
  tag_uid :: string
  tag_name :: string
  tag_belongsTo :: "string option"

record 'c user =
  user_uid :: "'c list"
  user_username :: "'c list option"
  user_email :: "'c list option"
  user_isSubscribed :: bool

section \<open>components/Games/GameForm\<close>

record form_data =
  title :: string
  description :: string
  path :: string
  imageUrl :: string
  mainTag :: main_tag
  additionalTags :: "json list"
  youtubeLink :: string
  gameImages :: "string list"

record form_state =
  formData :: form_data
  availableTags :: "additional_tag list"
  loading :: bool
  uploading :: bool
  error :: string
  selectedFile :: "File option"
  previewUrl :: string

datatype callback = OnSave | OnClose

text \<open>
  The effect that runs when \<^verbatim>\<open>availableTags\<close> or \<^verbatim>\<open>game\<close> changes.
  \<^verbatim>\<open>validTagIds.includes(id)\<close> compares with strings only, so membership in the list of
  \<open>JStr\<close> values is the same test.
\<close>

definition prune_tags_effect :: "'c game option \<Rightarrow> form_state \<Rightarrow> form_state" where
  "prune_tags_effect game st =
     (if length (availableTags st) > 0 \<and> length (additionalTags (formData st)) > 0 then
        (let validTagIds = map (\<lambda>tag. JStr (tag_uid tag)) (availableTags st);
             validSelectedTags =
               filter (\<lambda>i. i \<in> set validTagIds) (additionalTags (formData st));
             isEditingGame = (game \<noteq> None);
             hasInvalidTags =
               (length validSelectedTags \<noteq> length (additionalTags (formData st)))
         in if \<not> isEditingGame \<and> hasInvalidTags
            then st\<lparr>formData := (formData st)\<lparr>additionalTags := validSelectedTags\<rparr>\<rparr>
            else st)
      else st)"

text \<open>
  The form's own \<^verbatim>\<open>uploadImage\<close>: the URL of the response when the response has a truthy
  \<^verbatim>\<open>success\<close> and a truthy \<^verbatim>\<open>url\<close>, the error \<^verbatim>\<open>Upload failed\<close> otherwise.
  \<^verbatim>\<open>uploading\<close> is set while the request is in flight and reset on every path.
\<close>

definition form_uploadImage ::
  "backend \<Rightarrow> File \<Rightarrow> form_state \<Rightarrow> world \<Rightarrow> (js_error + json) \<times> form_state \<times> world" where
  "form_uploadImage backend f st w =
     (case uploadImage backend w f of
        (Inl e, w') \<Rightarrow> (Inl e, st\<lparr>uploading := False\<rparr>, w')
      | (Inr response, w') \<Rightarrow>
          (case (get_prop response ''success'', get_prop response ''url'') of
             (Inr s, Inr u) \<Rightarrow>
               if truthy (js_and s u) then (Inr u, st\<lparr>uploading := False\<rparr>, w')
               else (Inl (Error ''Upload failed''), st\<lparr>uploading := False\<rparr>, w')
           | _ \<Rightarrow> (Inl TypeError, st\<lparr>uploading := False\<rparr>, w')))"

text \<open>
  \<^verbatim>\<open>gameData = {...formData, imageUrl, additionalTags: formData.additionalTags.filter(...)}\<close>
\<close>

definition gameData_of :: "form_data \<Rightarrow> json \<Rightarrow> (string \<times> json) list" where
  "gameData_of fd imageUrl' =
     [(''title'', JStr (title fd)),
      (''description'', JStr (description fd)),
      (''path'', JStr (path fd)),
      (''imageUrl'', imageUrl'),
      (''mainTag'', JStr (main_tag_str (mainTag fd))),
      (''additionalTags'',
         JArr (filter (\<lambda>tag. tag \<noteq> JNull \<and> tag \<noteq> JUndefined) (additionalTags fd))),
      (''youtubeLink'', JStr (youtubeLink fd)),
      (''gameImages'', JArr (map JStr (gameImages fd)))]"

definition save_failed :: "form_state \<Rightarrow> form_state" where
  "save_failed st = st\<lparr>error := ''Failed to save game. Please try again.'', loading := False\<rparr>"

text \<open>
  \<^verbatim>\<open>handleSubmit\<close>.  The result lists the callbacks of the parent that were called.  The
  toasts are notifications only and are left out.  The earlier version of the form, without
  the two media fields, makes the same calls in the same order.
\<close>

definition handleSubmit ::
  "backend \<Rightarrow> 'c game option \<Rightarrow> form_state \<Rightarrow> world \<Rightarrow> callback list \<times> form_state \<times> world" where
  "handleSubmit backend game st w =
     (let st1 = st\<lparr>loading := True, error := []\<rparr> in
      case (case selectedFile st of
              None \<Rightarrow> (Inr (JStr (imageUrl (formData st))), st1, w)
            | Some f \<Rightarrow> form_uploadImage backend f st1 w) of
        (Inl e, st2, w2) \<Rightarrow> ([], save_failed st2, w2)
      | (Inr imageUrl', st2, w2) \<Rightarrow>
          (let gameData = gameData_of (formData st) imageUrl' in
           case (case game of
                   Some g \<Rightarrow>
                     updateGame backend w2
                       (JObj ((''id'',
                               js_or (case game_id g of None \<Rightarrow> JUndefined | Some i \<Rightarrow> JStr i)
                                     (JStr (game_uid g))) # gameData))
                 | None \<Rightarrow> createGame backend w2 (JObj gameData)) of
             (Inl e, w3) \<Rightarrow> ([], save_failed st2, w3)
           | (Inr d, w3) \<Rightarrow> ([OnSave, OnClose], st2\<lparr>loading := False\<rparr>, w3)))"

section \<open>app/dashboard: the list pages\<close>

text \<open>
  \<^verbatim>\<open>filterGames\<close> and \<^verbatim>\<open>filterUsers\<close> compute the visible list from the source list, the
  search term and the selector; the result is what \<^verbatim>\<open>setFilteredGames\<close> and
  \<^verbatim>\<open>setFilteredUsers\<close> store.  An absent or empty \<^verbatim>\<open>username\<close> or \<^verbatim>\<open>email\<close> is falsy
  and is not searched.
\<close>

datatype subscription_filter = AllUsers | Subscribed | Unsubscribed

definition filterGames ::
  "('c list \<Rightarrow> 'c list) \<Rightarrow> 'c game list \<Rightarrow> 'c list \<Rightarrow> main_tag_filter \<Rightarrow> 'c game list" where
  "filterGames toLowerCase games searchTerm selectedMainTag =
     (let filtered = games;
          filtered =
            (if searchTerm \<noteq> [] then
               filter (\<lambda>game.
                  string_includes (toLowerCase (game_title game)) (toLowerCase searchTerm) \<or>
                  string_includes (toLowerCase (game_description game)) (toLowerCase searchTerm))
                 filtered
             else filtered);
          filtered =
            (if selectedMainTag \<noteq> AllTags then
               filter (\<lambda>game. MainTag (game_mainTag game) = selectedMainTag) filtered
             else filtered)
      in filtered)"

definition filterUsers ::
  "('c list \<Rightarrow> 'c list) \<Rightarrow> 'c user list \<Rightarrow> 'c list \<Rightarrow> subscription_filter \<Rightarrow> 'c user list" where
  "filterUsers toLowerCase users searchTerm filterSubscription =
     (let filtered = users;
          filtered =
            (if searchTerm \<noteq> [] then
               filter (\<lambda>user.
                  (case user_username user of
                     None \<Rightarrow> False
                   | Some n \<Rightarrow> n \<noteq> [] \<and> string_includes (toLowerCase n) (toLowerCase searchTerm)) \<or>
                  (case user_email user of
                     None \<Rightarrow> False
                   | Some m \<Rightarrow> m \<noteq> [] \<and> string_includes (toLowerCase m) (toLowerCase searchTerm)) \<or>
                  string_includes (toLowerCase (user_uid user)) (toLowerCase searchTerm))
                 filtered
             else filtered);
          filtered =
            (if filterSubscription \<noteq> AllUsers then
               filter (\<lambda>user.
                  if filterSubscription = Subscribed then user_isSubscribed user
                  else \<not> user_isSubscribed user)
                 filtered
             else filtered)
      in filtered)"

text \<open>
  The tags page.  \<^verbatim>\<open>handleCreateTag\<close> passes the trimmed name and the selected classifier
  to \<^verbatim>\<open>apiClient.createAdditionalTag\<close>, whose single parameter binds the name.
\<close>

record tags_page =
  tags :: json
  tags_loading :: bool
  newTagName :: string
  newTagBelongsTo :: string
  showCreateForm :: bool
  creating :: bool
  tags_error :: string

definition fetchTags :: "backend \<Rightarrow> tags_page \<Rightarrow> world \<Rightarrow> tags_page \<times> world" where
  "fetchTags backend st w =
     (case getAdditionalTags backend w of
        (Inl e, w') \<Rightarrow> (st\<lparr>tags_error := ''Failed to fetch tags'', tags_loading := False\<rparr>, w')
      | (Inr response, w') \<Rightarrow>
          (case list_of_response response of
             Inl e \<Rightarrow> (st\<lparr>tags_error := ''Failed to fetch tags'', tags_loading := False\<rparr>, w')
           | Inr tagsData \<Rightarrow> (st\<lparr>tags := tagsData, tags_loading := False\<rparr>, w')))"

definition handleCreateTag :: "backend \<Rightarrow> tags_page \<Rightarrow> world \<Rightarrow> tags_page \<times> world" where
  "handleCreateTag backend st w =
     (if trim (newTagName st) = [] then (st, w)
      else
        (let st1 = st\<lparr>creating := True, tags_error := []\<rparr> in
         case createAdditionalTag backend w (trim (newTagName st)) of
           (Inl e, w') \<Rightarrow>
             (st1\<lparr>tags_error := ''Failed to create tag. Please try again.'',
                  creating := False\<rparr>, w')
         | (Inr d, w') \<Rightarrow>
             (case fetchTags backend
                     (st1\<lparr>newTagName := [], newTagBelongsTo := ''Game'',
                          showCreateForm := False\<rparr>) w' of
                (st2, w'') \<Rightarrow> (st2\<lparr>creating := False\<rparr>, w''))))"

section \<open>The visible list, as the specification words it\<close>

text \<open>
  The criterion in terms of the built-in: the lower-cased term occurs in the lower-cased
  field.  An empty term admits every record, and an empty user name or e-mail address is
  not searched.  A record is shown when the term occurs in one of its text fields (title or
  description of a game; user name, e-mail address or identity of a user) and the selector
  admits it.
\<close>

definition lowered_occurs :: "('c list \<Rightarrow> 'c list) \<Rightarrow> 'c list \<Rightarrow> 'c list \<Rightarrow> bool" where
  "lowered_occurs toLowerCase t field = (\<exists>ps ss. toLowerCase field = ps @ toLowerCase t @ ss)"

definition game_shown ::
  "('c list \<Rightarrow> 'c list) \<Rightarrow> 'c list \<Rightarrow> main_tag_filter \<Rightarrow> 'c game \<Rightarrow> bool" where
  "game_shown toLowerCase t sel g =
     ((t = [] \<or> lowered_occurs toLowerCase t (game_title g) \<or>
         lowered_occurs toLowerCase t (game_description g)) \<and>
      (sel = AllTags \<or> sel = MainTag (game_mainTag g)))"

definition user_shown ::
  "('c list \<Rightarrow> 'c list) \<Rightarrow> 'c list \<Rightarrow> subscription_filter \<Rightarrow> 'c user \<Rightarrow> bool" where
  "user_shown toLowerCase t sel u =
     ((t = [] \<or>
       (case user_username u of
          None \<Rightarrow> False | Some n \<Rightarrow> n \<noteq> [] \<and> lowered_occurs toLowerCase t n) \<or>
       (case user_email u of
          None \<Rightarrow> False | Some m \<Rightarrow> m \<noteq> [] \<and> lowered_occurs toLowerCase t m) \<or>
       lowered_occurs toLowerCase t (user_uid u)) \<and>
      (case sel of
         AllUsers \<Rightarrow> True
       | Subscribed \<Rightarrow> user_isSubscribed u
       | Unsubscribed \<Rightarrow> \<not> user_isSubscribed u))"

text \<open>
  The criterion without regard to case, in words that do not mention the built-in.
  \<open>same_letter\<close> relates two code units that are forms of one letter (a capital and a
  small form of it, two small forms of one capital) and every code unit to itself.  A term
  occurs in a field without regard to case when some contiguous part of the field equals
  the term, code unit by code unit, up to \<open>same_letter\<close>.
\<close>

definition ci_substring :: "('c \<Rightarrow> 'c \<Rightarrow> bool) \<Rightarrow> 'c list \<Rightarrow> 'c list \<Rightarrow> bool" where
  "ci_substring same_letter t field =
     (\<exists>ps w ss. field = ps @ w @ ss \<and> list_all2 same_letter w t)"

definition game_visible ::
  "('c \<Rightarrow> 'c \<Rightarrow> bool) \<Rightarrow> 'c list \<Rightarrow> main_tag_filter \<Rightarrow> 'c game \<Rightarrow> bool" where
  "game_visible same_letter t sel g =
     ((ci_substring same_letter t (game_title g) \<or>
       ci_substring same_letter t (game_description g)) \<and>
      (sel = AllTags \<or> sel = MainTag (game_mainTag g)))"

definition user_visible ::
  "('c \<Rightarrow> 'c \<Rightarrow> bool) \<Rightarrow> 'c list \<Rightarrow> subscription_filter \<Rightarrow> 'c user \<Rightarrow> bool" where
  "user_visible same_letter t sel u =
     (((case user_username u of None \<Rightarrow> False | Some n \<Rightarrow> ci_substring same_letter t n) \<or>
       (case user_email u of None \<Rightarrow> False | Some m \<Rightarrow> ci_substring same_letter t m) \<or>
       ci_substring same_letter t (user_uid u)) \<and>
      (case sel of
         AllUsers \<Rightarrow> True
       | Subscribed \<Rightarrow> user_isSubscribed u
       | Unsubscribed \<Rightarrow> \<not> user_isSubscribed u))"

text \<open>
  The texts a search looks at, and the condition under which the two criteria agree: on
  each of the texts the built-in replaces every code unit on its own, by \<open>low\<close>, and two
  code units of the texts have the same image under \<open>low\<close> exactly when they are forms of
  one letter.
\<close>

definition game_texts :: "'c game list \<Rightarrow> 'c list list" where
  "game_texts games = concat (map (\<lambda>g. [game_title g, game_description g]) games)"

definition user_texts :: "'c user list \<Rightarrow> 'c list list" where
  "user_texts users =
     concat (map (\<lambda>u. (case user_username u of None \<Rightarrow> [] | Some n \<Rightarrow> [n]) @
                       (case user_email u of None \<Rightarrow> [] | Some m \<Rightarrow> [m]) @ [user_uid u]) users)"

definition lower_cases_by_unit ::
  "('c list \<Rightarrow> 'c list) \<Rightarrow> ('c \<Rightarrow> 'c) \<Rightarrow> ('c \<Rightarrow> 'c \<Rightarrow> bool) \<Rightarrow> 'c list list \<Rightarrow> bool" where
  "lower_cases_by_unit toLowerCase low same_letter texts =
     ((\<forall>s \<in> set texts. toLowerCase s = map low s) \<and>
      (\<forall>s \<in> set texts. \<forall>s' \<in> set texts. \<forall>a \<in> set s. \<forall>b \<in> set s'.
          same_letter a b \<longleftrightarrow> low a = low b))"

text \<open>
  Two instances of the built-in on the strings of concrete runs.  On text of the letters A
  to Z and a to z, \<^verbatim>\<open>toLowerCase\<close> replaces each capital by its small letter; two code
  units are forms of one letter when they are equal or a capital and its small letter in
  the alphabet.  In Greek, the capital sigma (code unit 931) has two small forms, the small
  sigma (963) and the final small sigma (962): \<^verbatim>\<open>toLowerCase\<close> turns a capital sigma that
  stands alone into the small sigma and leaves both small forms as they are.
\<close>

definition ascii_letter_pairs :: "(char \<times> char) list" where
  "ascii_letter_pairs = zip ''ABCDEFGHIJKLMNOPQRSTUVWXYZ'' ''abcdefghijklmnopqrstuvwxyz''"

definition ascii_lower :: "char \<Rightarrow> char" where
  "ascii_lower c = (case map_of ascii_letter_pairs c of None \<Rightarrow> c | Some l \<Rightarrow> l)"

definition toLowerCase_ascii :: "string \<Rightarrow> string" where
  "toLowerCase_ascii s = map ascii_lower s"

definition same_letter_ascii :: "char \<Rightarrow> char \<Rightarrow> bool" where
  "same_letter_ascii a b =
     (a = b \<or> (a, b) \<in> set ascii_letter_pairs \<or> (b, a) \<in> set ascii_letter_pairs)"

definition sigma_lower :: "nat \<Rightarrow> nat" where
  "sigma_lower c = (if c = 931 then 963 else c)"

definition toLowerCase_sigma :: "nat list \<Rightarrow> nat list" where
  "toLowerCase_sigma s = map sigma_lower s"

definition same_letter_sigma :: "nat \<Rightarrow> nat \<Rightarrow> bool" where
  "same_letter_sigma a b = (a = b \<or> (a \<in> {931, 962, 963} \<and> b \<in> {931, 962, 963}))"

text \<open>
  Source lists for concrete runs: two games and two users in the letters A to Z, and a
  game whose title is the one code unit 962, a final small sigma.
\<close>

definition example_games :: "char game list" where
  "example_games =
     [\<lparr>game_uid = ''g1'', game_id = None, game_title = ''Ab'', game_description = [],
       game_path = ''/a'', game_imageUrl = ''a.png'', game_mainTag = Game,
       game_additionalTags = [], game_youtubeLink = None, game_gameImages = None\<rparr>,
      \<lparr>game_uid = ''g2'', game_id = None, game_title = ''cd'', game_description = [],
       game_path = ''/c'', game_imageUrl = ''c.png'', game_mainTag = Software,
       game_additionalTags = [], game_youtubeLink = None, game_gameImages = None\<rparr>]"

definition example_users :: "char user list" where
  "example_users =
     [\<lparr>user_uid = ''u'', user_username = Some ''cAB'', user_email = None,
       user_isSubscribed = True\<rparr>,
      \<lparr>user_uid = ''v'', user_username = None, user_email = Some ''d'',
       user_isSubscribed = False\<rparr>]"

definition sigma_game :: "nat game" where
  "sigma_game =
     \<lparr>game_uid = ''g1'', game_id = None, game_title = [962], game_description = [],
      game_path = ''/s'', game_imageUrl = ''s.png'', game_mainTag = Game,
      game_additionalTags = [], game_youtubeLink = None, game_gameImages = None\<rparr>"

section \<open>Observing a run\<close>

text \<open>
  The exchanges an operation added to the record, what axios takes for a success, the
  status that ends a session, and the property of a JSON request body.
\<close>

definition new_exchanges :: "world \<Rightarrow> world \<Rightarrow> exchange list" where
  "new_exchanges w w' = drop (length (exchanges w)) (exchanges w')"

fun succeeded :: "outcome \<Rightarrow> bool" where
  "succeeded (Response status d) = (200 \<le> status \<and> status < 300)"
| "succeeded NoResponse = False"

fun unauthorized :: "outcome \<Rightarrow> bool" where
  "unauthorized (Response status d) = (status = 401)"
| "unauthorized NoResponse = False"

fun response_data :: "outcome \<Rightarrow> json" where
  "response_data (Response status d) = d"
| "response_data NoResponse = JUndefined"

definition body_prop :: "request \<Rightarrow> string \<Rightarrow> json option" where
  "body_prop req k = (case req_body req of JsonBody (JObj kvs) \<Rightarrow> map_of kvs k | _ \<Rightarrow> None)"

definition is_upload_request :: "File \<Rightarrow> request \<Rightarrow> bool" where
  "is_upload_request f req =
     (req_method req = POST \<and> req_url req = ''/admin/games/upload/picture'' \<and>
      req_body req = FormData [(''image'', f)])"

definition is_save_request :: "'c game option \<Rightarrow> request \<Rightarrow> bool" where
  "is_save_request game req =
     (req_url req = ''/admin/games/game'' \<and>
      req_method req = (if game = None then POST else PUT))"

text \<open>
  The URL an upload has produced: the \<^verbatim>\<open>url\<close> of a response that axios resolves and that
  has a truthy \<^verbatim>\<open>success\<close> and a truthy \<^verbatim>\<open>url\<close>; none otherwise.
\<close>

definition uploaded_url :: "outcome \<Rightarrow> json option" where
  "uploaded_url out =
     (case out of
        NoResponse \<Rightarrow> None
      | Response status d \<Rightarrow>
          if 200 \<le> status \<and> status < 300 then
            (case (get_prop d ''success'', get_prop d ''url'') of
               (Inr s, Inr u) \<Rightarrow> if truthy s \<and> truthy u then Some u else None
             | _ \<Rightarrow> None)
          else None)"

definition session_ended :: "world \<Rightarrow> bool" where
  "session_ended w = (cookies w ''admin_token'' = None \<and> location_href w = ''/login'')"



text \<open>
  What a list operation makes of one record \<open>x\<close> of a bare collection: an object \<open>y\<close> whose
  \<^verbatim>\<open>id\<close> is \<^verbatim>\<open>x._id || x.id\<close>, whose secondary tag references, for a game, are those of
  \<open>x\<close> without the \<^verbatim>\<open>null\<close> and \<^verbatim>\<open>undefined\<close> entries, and whose other properties are
  those of \<open>x\<close>.
\<close>

fun property :: "json \<Rightarrow> string \<Rightarrow> json" where
  "property (JObj kvs) k = (case map_of kvs k of None \<Rightarrow> JUndefined | Some v \<Rightarrow> v)"
| "property v k = JUndefined"



text \<open>
  Backends for concrete runs: one that gives the same outcome to every request, and one
  that answers by the path of the request.  A browser that holds a token.
\<close>

definition fixed_backend :: "outcome \<Rightarrow> backend" where
  "fixed_backend out h req = out"

definition route_backend :: "(string \<times> outcome) list \<Rightarrow> outcome \<Rightarrow> backend" where
  "route_backend routes other h req =
     (case map_of routes (req_url req) of None \<Rightarrow> other | Some out \<Rightarrow> out)"

definition signed_out :: world where
  "signed_out = \<lparr>cookies = Map.empty, location_href = ''/login'', exchanges = []\<rparr>"

definition signed_in :: world where
  "signed_in =
     \<lparr>cookies = [''admin_token'' \<mapsto> ''tok''], location_href = ''/dashboard'', exchanges = []\<rparr>"

text \<open>
  A draft for a new record with the tag selection \<^verbatim>\<open>["t1", null, "t2", undefined]\<close> and
  a newly selected image file, and a backend that accepts the upload and the save.
\<close>

definition example_draft :: form_state where
  "example_draft =
     \<lparr>formData =
        \<lparr>title = ''T'', description = ''D'', path = ''/p'', imageUrl = ''old.png'',
         mainTag = Game, additionalTags = [JStr ''t1'', JNull, JStr ''t2'', JUndefined],
         youtubeLink = [], gameImages = []\<rparr>,
      availableTags = [], loading = False, uploading = False, error = [],
      selectedFile = Some \<lparr>file_name = ''new.png'', file_type = ''image/png'', file_size = 1024\<rparr>,
      previewUrl = ''blob:local''\<rparr>"

definition accepting_backend :: backend where
  "accepting_backend =
     route_backend
       [(''/admin/games/upload/picture'',
         Response 200 (JObj [(''success'', JBool True), (''url'', JStr ''/uploads/new.png'')]))]
       (Response 201 (JObj []))"

section \<open>Image reference resolution\<close>

lemma startsWith_Nil [simp]: "startsWith [] p \<longleftrightarrow> p = []"
  by (simp add: startsWith_def)

lemma startsWith_Cons [simp]:
  "startsWith (c # s) p \<longleftrightarrow> (case p of [] \<Rightarrow> True | d # q \<Rightarrow> c = d \<and> startsWith s q)"
  by (cases p) (auto simp add: startsWith_def)

text \<open>
  C1, as amended.  For every non-empty reference \<open>p\<close>: an absolute \<^verbatim>\<open>http://\<close> or
  \<^verbatim>\<open>https://\<close> URL is returned unchanged; a reference starting with a slash is appended to
  the base URL without its trailing slash; anything else is resolved under
  \<^verbatim>\<open><base>/uploads/\<close>.  The three examples of the specification hold.
\<close>

theorem getImageUrl_resolution:
  "(p \<noteq> [] \<longrightarrow>
      getImageUrl env p =
        (if startsWith p ''http://'' \<or> startsWith p ''https://'' then p
         else if startsWith p ''/'' then strip_trailing_slash (API_BASE_URL env) @ p
         else strip_trailing_slash (API_BASE_URL env) @ ''/uploads/'' @ p))
   \<and> getImageUrl env ''https://x/y.png'' = ''https://x/y.png''
   \<and> getImageUrl (Some ''http://h:9000/'') ''/uploads/a.png'' = ''http://h:9000/uploads/a.png''
   \<and> getImageUrl (Some ''http://h:9000/'') ''a.png'' = ''http://h:9000/uploads/a.png''"
  by (simp add: getImageUrl_def API_BASE_URL_def strip_trailing_slash_def)

theorem getImageUrl_resolution_witness:
  "''a.png'' \<noteq> [] \<and> \<not> startsWith ''a.png'' ''http://'' \<and> \<not> startsWith ''a.png'' ''https://''
   \<and> \<not> startsWith ''a.png'' ''/''
   \<and> getImageUrl (Some ''http://h:9000/'') ''a.png''
       = strip_trailing_slash (API_BASE_URL (Some ''http://h:9000/'')) @ ''/uploads/'' @ ''a.png''"
  using getImageUrl_resolution [of "''a.png''" "Some ''http://h:9000/''"]
  by simp

text \<open>
  The rule as the specification words it gives \<^verbatim>\<open><base>/uploads/\<close> for the empty
  reference, which starts with none of the three prefixes.  The resolver returns the empty
  string there.
\<close>

theorem getImageUrl_other_string_counterexample:
  "\<not> startsWith [] ''http://'' \<and> \<not> startsWith [] ''https://'' \<and> \<not> startsWith [] ''/''
   \<and> getImageUrl (Some ''http://h:9000/'') []
       \<noteq> strip_trailing_slash (API_BASE_URL (Some ''http://h:9000/'')) @ ''/uploads/'' @ []"
  by (simp add: getImageUrl_def)

text \<open>
  C10.  The empty reference resolves to the empty string, whatever the base URL is.
\<close>

theorem getImageUrl_empty: "getImageUrl env [] = []"
  by (simp add: getImageUrl_def)

section \<open>Pruning of tag selections in the game form\<close>

lemma filter_same_length: "length (filter P xs) = length xs \<Longrightarrow> filter P xs = xs"
  by (metis filter_id_conv length_filter_less less_irrefl)

text \<open>
  C8, as amended.  While an existing game is edited the effect leaves the draft as it is.
  While a new record is created and the available tag collection is not empty, the
  selection is cut down to the ids of that collection and nothing else of the draft
  changes.  While the available collection is empty the draft is left as it is.
\<close>

theorem prune_tags_effect_cases:
  "(game \<noteq> None \<longrightarrow> prune_tags_effect game st = st) \<and>
   (game = None \<and> availableTags st \<noteq> [] \<longrightarrow>
      prune_tags_effect game st =
        st\<lparr>formData := (formData st)\<lparr>additionalTags :=
              filter (\<lambda>i. i \<in> set (map (\<lambda>tag. JStr (tag_uid tag)) (availableTags st)))
                (additionalTags (formData st))\<rparr>\<rparr>) \<and>
   (availableTags st = [] \<longrightarrow> prune_tags_effect game st = st)"
  by (auto simp: prune_tags_effect_def Let_def dest: filter_same_length)

theorem prune_tags_effect_cases_witness:
  "prune_tags_effect
     (Some \<lparr>game_uid = ''g1'', game_id = None, game_title = ''T'', game_description = ''D'',
            game_path = ''/p'', game_imageUrl = ''i.png'', game_mainTag = Game,
            game_additionalTags = [JStr ''a'', JStr ''gone''], game_youtubeLink = None,
            game_gameImages = None\<rparr>)
     \<lparr>formData = \<lparr>title = ''T'', description = ''D'', path = ''/p'', imageUrl = ''i.png'',
                  mainTag = Game, additionalTags = [JStr ''a'', JStr ''gone''],
                  youtubeLink = [], gameImages = []\<rparr>,
      availableTags = [\<lparr>tag_uid = ''a'', tag_name = ''RPG'', tag_belongsTo = Some ''Game''\<rparr>],
      loading = False, uploading = False, error = [], selectedFile = None, previewUrl = []\<rparr>
   = \<lparr>formData = \<lparr>title = ''T'', description = ''D'', path = ''/p'', imageUrl = ''i.png'',
                  mainTag = Game, additionalTags = [JStr ''a'', JStr ''gone''],
                  youtubeLink = [], gameImages = []\<rparr>,
      availableTags = [\<lparr>tag_uid = ''a'', tag_name = ''RPG'', tag_belongsTo = Some ''Game''\<rparr>],
      loading = False, uploading = False, error = [], selectedFile = None, previewUrl = []\<rparr>
   \<and> additionalTags (formData (prune_tags_effect (None :: char game option)
     \<lparr>formData = \<lparr>title = [], description = [], path = [], imageUrl = [],
                  mainTag = Game, additionalTags = [JStr ''a'', JStr ''gone''],
                  youtubeLink = [], gameImages = []\<rparr>,
      availableTags = [\<lparr>tag_uid = ''a'', tag_name = ''RPG'', tag_belongsTo = Some ''Game''\<rparr>],
      loading = False, uploading = False, error = [], selectedFile = None, previewUrl = []\<rparr>))
     = [JStr ''a'']
   \<and> additionalTags (formData (prune_tags_effect (None :: char game option)
     \<lparr>formData = \<lparr>title = [], description = [], path = [], imageUrl = [],
                  mainTag = Game, additionalTags = [JStr ''gone''],
                  youtubeLink = [], gameImages = []\<rparr>,
      availableTags = [],
      loading = False, uploading = False, error = [], selectedFile = None, previewUrl = []\<rparr>))
     = [JStr ''gone'']"
  using
    prune_tags_effect_cases
      [of "Some \<lparr>game_uid = ''g1'', game_id = None, game_title = ''T'', game_description = ''D'',
            game_path = ''/p'', game_imageUrl = ''i.png'', game_mainTag = Game,
            game_additionalTags = [JStr ''a'', JStr ''gone''], game_youtubeLink = None,
            game_gameImages = None\<rparr>"
          "\<lparr>formData = \<lparr>title = ''T'', description = ''D'', path = ''/p'', imageUrl = ''i.png'',
                  mainTag = Game, additionalTags = [JStr ''a'', JStr ''gone''],
                  youtubeLink = [], gameImages = []\<rparr>,
      availableTags = [\<lparr>tag_uid = ''a'', tag_name = ''RPG'', tag_belongsTo = Some ''Game''\<rparr>],
      loading = False, uploading = False, error = [], selectedFile = None, previewUrl = []\<rparr>"]
    prune_tags_effect_cases
      [of "None :: char game option"
          "\<lparr>formData = \<lparr>title = [], description = [], path = [], imageUrl = [],
                  mainTag = Game, additionalTags = [JStr ''a'', JStr ''gone''],
                  youtubeLink = [], gameImages = []\<rparr>,
      availableTags = [\<lparr>tag_uid = ''a'', tag_name = ''RPG'', tag_belongsTo = Some ''Game''\<rparr>],
      loading = False, uploading = False, error = [], selectedFile = None, previewUrl = []\<rparr>"]
    prune_tags_effect_cases
      [of "None :: char game option"
          "\<lparr>formData = \<lparr>title = [], description = [], path = [], imageUrl = [],
                  mainTag = Game, additionalTags = [JStr ''gone''],
                  youtubeLink = [], gameImages = []\<rparr>,
      availableTags = [],
      loading = False, uploading = False, error = [], selectedFile = None, previewUrl = []\<rparr>"]
  by simp

text \<open>
  As the specification words it, a selected id that is not in the available collection is
  removed whenever a new record is created.  With a new record, the selection \<^verbatim>\<open>["gone"]\<close>
  and an empty available collection, the effect keeps \<^verbatim>\<open>"gone"\<close> in the draft.
\<close>

theorem prune_tags_effect_create_counterexample:
  "JStr ''gone'' \<in> set (additionalTags (formData (prune_tags_effect (None :: char game option)
     \<lparr>formData = \<lparr>title = [], description = [], path = [], imageUrl = [],
                  mainTag = Game, additionalTags = [JStr ''gone''],
                  youtubeLink = [], gameImages = []\<rparr>,
      availableTags = [],
      loading = False, uploading = False, error = [], selectedFile = None, previewUrl = []\<rparr>)))
   \<and> JStr ''gone'' \<notin> set (map (\<lambda>tag. JStr (tag_uid tag)) [])"
  by (simp add: prune_tags_effect_def)

section \<open>The visible list of a page\<close>

lemma map_sublist_iff:
  "sublist (map f t) (map f s) \<longleftrightarrow>
     (\<exists>ps w ss. s = ps @ w @ ss \<and> list_all2 (\<lambda>a b. f a = f b) w t)"
proof
  assume "sublist (map f t) (map f s)"
  then obtain xs ys where "map f s = xs @ map f t @ ys"
    by (auto simp: sublist_def)
  then have "\<exists>ps r. s = ps @ r \<and> xs = map f ps \<and> map f t @ ys = map f r"
    by (simp only: map_eq_append_conv)
  then obtain ps r where s: "s = ps @ r" and r: "map f r = map f t @ ys"
    by auto
  from r have "\<exists>w ss. r = w @ ss \<and> map f t = map f w \<and> ys = map f ss"
    by (simp only: map_eq_append_conv)
  then obtain w ss where "r = w @ ss" and w: "map f w = map f t"
    by auto
  from w have "list_all2 (=) (map f w) (map f t)"
    by (simp add: list.rel_eq)
  then have "list_all2 (\<lambda>a b. f a = f b) w t"
    by (simp add: list.rel_map)
  with s \<open>r = w @ ss\<close> show "\<exists>ps w ss. s = ps @ w @ ss \<and> list_all2 (\<lambda>a b. f a = f b) w t"
    by blast
next
  assume "\<exists>ps w ss. s = ps @ w @ ss \<and> list_all2 (\<lambda>a b. f a = f b) w t"
  then obtain ps w ss where s: "s = ps @ w @ ss" and "list_all2 (\<lambda>a b. f a = f b) w t"
    by blast
  then have "list_all2 (=) (map f w) (map f t)"
    by (simp add: list.rel_map)
  then have "map f w = map f t"
    by (simp add: list.rel_eq)
  with s show "sublist (map f t) (map f s)"
    by (auto simp: sublist_def)
qed

lemma includes_lowered:
  "string_includes (toLowerCase s) (toLowerCase t) = lowered_occurs toLowerCase t s"
  by (simp add: string_includes_def lowered_occurs_def sublist_def)

lemma filterGames_shown:
  "filterGames toLowerCase games searchTerm selectedMainTag
     = filter (game_shown toLowerCase searchTerm selectedMainTag) games"
  by (auto simp: filterGames_def game_shown_def includes_lowered intro: filter_cong)

lemma filterUsers_shown:
  "filterUsers toLowerCase users searchTerm filterSubscription
     = filter (user_shown toLowerCase searchTerm filterSubscription) users"
  by (cases filterSubscription)
     (auto simp: filterUsers_def user_shown_def includes_lowered
           intro!: filter_cong split: option.splits)

lemma ci_substring_Nil: "ci_substring same_letter [] s"
  unfolding ci_substring_def by (rule exI [of _ "[]"], rule exI [of _ "[]"]) simp

lemma ci_substring_in_Nil: "ci_substring same_letter t [] \<longleftrightarrow> t = []"
  by (auto simp: ci_substring_def)

lemma includes_by_unit:
  assumes s: "toLowerCase s = map low s" and t: "toLowerCase t = map low t"
    and u: "\<forall>a \<in> set s. \<forall>b \<in> set t. same_letter a b \<longleftrightarrow> low a = low b"
  shows "string_includes (toLowerCase s) (toLowerCase t) = ci_substring same_letter t s"
proof -
  have "list_all2 (\<lambda>a b. low a = low b) w t = list_all2 same_letter w t"
    if "s = ps @ w @ ss" for ps w ss
    using u that by (intro list.rel_cong) auto
  then show ?thesis
    unfolding string_includes_def s t map_sublist_iff ci_substring_def by blast
qed

lemma by_unit_texts:
  assumes "lower_cases_by_unit toLowerCase low same_letter (t # texts)" and "s \<in> set texts"
  shows "string_includes (toLowerCase s) (toLowerCase t) = ci_substring same_letter t s"
  using assms by (intro includes_by_unit) (auto simp: lower_cases_by_unit_def)

lemma filterGames_visible:
  assumes "lower_cases_by_unit toLowerCase low same_letter (searchTerm # game_texts games)"
  shows "filterGames toLowerCase games searchTerm selectedMainTag
     = filter (game_visible same_letter searchTerm selectedMainTag) games"
proof -
  have "string_includes (toLowerCase (game_title g)) (toLowerCase searchTerm)
          = ci_substring same_letter searchTerm (game_title g)"
       "string_includes (toLowerCase (game_description g)) (toLowerCase searchTerm)
          = ci_substring same_letter searchTerm (game_description g)"
    if "g \<in> set games" for g
    using that by (auto intro!: by_unit_texts [OF assms] simp: game_texts_def)
  then show ?thesis
    by (auto simp: filterGames_def game_visible_def ci_substring_Nil intro: filter_cong)
qed

lemma filterUsers_visible:
  assumes "lower_cases_by_unit toLowerCase low same_letter (searchTerm # user_texts users)"
  shows "filterUsers toLowerCase users searchTerm filterSubscription
     = filter (user_visible same_letter searchTerm filterSubscription) users"
proof -
  have uid: "user_uid u \<in> set (user_texts users)" if "u \<in> set users" for u
    using that by (force simp: user_texts_def)
  have name: "n \<in> set (user_texts users)"
    if "u \<in> set users" "user_username u = Some n" for u n
    using that by (force simp: user_texts_def)
  have mail: "m \<in> set (user_texts users)"
    if "u \<in> set users" "user_email u = Some m" for u m
    using that by (force simp: user_texts_def)
  have "string_includes (toLowerCase (user_uid u)) (toLowerCase searchTerm)
          = ci_substring same_letter searchTerm (user_uid u)"
    if "u \<in> set users" for u
    using uid [OF that] by (rule by_unit_texts [OF assms])
  moreover have "string_includes (toLowerCase n) (toLowerCase searchTerm)
          = ci_substring same_letter searchTerm n"
    if "u \<in> set users" "user_username u = Some n" for u n
    using name [OF that] by (rule by_unit_texts [OF assms])
  moreover have "string_includes (toLowerCase m) (toLowerCase searchTerm)
          = ci_substring same_letter searchTerm m"
    if "u \<in> set users" "user_email u = Some m" for u m
    using mail [OF that] by (rule by_unit_texts [OF assms])
  ultimately show ?thesis
    by (cases filterSubscription)
       (auto simp: filterUsers_def user_visible_def ci_substring_Nil ci_substring_in_Nil
             intro!: filter_cong split: option.splits)
qed

text \<open>
  C5, as amended.  The visible list of the games page and of the users page is a function
  of the source list, the search term and the selector alone.  It holds exactly the records
  of the source list for which the lower-cased term occurs in a lower-cased text field (or
  the term is empty) and which the selector admits, each as often as in the source list and
  in the order of the source list.  Where the built-in lower-cases the term and the text
  fields code unit by code unit and gives two code units the same image exactly when they
  are forms of one letter, these are exactly the records in which the term occurs without
  regard to case.
\<close>

theorem recomputeVisible_exact:
  "filterGames toLowerCase games searchTerm selectedMainTag
     = filter (game_shown toLowerCase searchTerm selectedMainTag) games
   \<and> subseq (filterGames toLowerCase games searchTerm selectedMainTag) games
   \<and> filterUsers toLowerCase users searchTerm filterSubscription
     = filter (user_shown toLowerCase searchTerm filterSubscription) users
   \<and> subseq (filterUsers toLowerCase users searchTerm filterSubscription) users
   \<and> (lower_cases_by_unit toLowerCase low same_letter (searchTerm # game_texts games) \<longrightarrow>
        filterGames toLowerCase games searchTerm selectedMainTag
          = filter (game_visible same_letter searchTerm selectedMainTag) games)
   \<and> (lower_cases_by_unit toLowerCase low same_letter (searchTerm # user_texts users) \<longrightarrow>
        filterUsers toLowerCase users searchTerm filterSubscription
          = filter (user_visible same_letter searchTerm filterSubscription) users)"
  using filterGames_visible [of toLowerCase low same_letter searchTerm games selectedMainTag]
    filterUsers_visible [of toLowerCase low same_letter searchTerm users filterSubscription]
  by (simp add: filterGames_shown filterUsers_shown)

theorem recomputeVisible_exact_witness:
  "lower_cases_by_unit toLowerCase_ascii ascii_lower same_letter_ascii
     (''aB'' # game_texts example_games)
   \<and> lower_cases_by_unit toLowerCase_ascii ascii_lower same_letter_ascii
     (''aB'' # user_texts example_users)
   \<and> filterGames toLowerCase_ascii example_games ''aB'' AllTags = [hd example_games]
   \<and> filter (game_visible same_letter_ascii ''aB'' AllTags) example_games = [hd example_games]
   \<and> filterUsers toLowerCase_ascii example_users ''aB'' AllUsers = [hd example_users]
   \<and> filter (user_visible same_letter_ascii ''aB'' AllUsers) example_users = [hd example_users]"
proof -
  have g: "lower_cases_by_unit toLowerCase_ascii ascii_lower same_letter_ascii
             (''aB'' # game_texts example_games)"
    by (simp add: lower_cases_by_unit_def toLowerCase_ascii_def ascii_lower_def
          same_letter_ascii_def ascii_letter_pairs_def game_texts_def example_games_def)
  have u: "lower_cases_by_unit toLowerCase_ascii ascii_lower same_letter_ascii
             (''aB'' # user_texts example_users)"
    by (simp add: lower_cases_by_unit_def toLowerCase_ascii_def ascii_lower_def
          same_letter_ascii_def ascii_letter_pairs_def user_texts_def example_users_def)
  have fg: "filterGames toLowerCase_ascii example_games ''aB'' AllTags = [hd example_games]"
    by (simp add: filterGames_def string_includes_def sublist_code toLowerCase_ascii_def
          ascii_lower_def ascii_letter_pairs_def example_games_def)
  have fu: "filterUsers toLowerCase_ascii example_users ''aB'' AllUsers = [hd example_users]"
    by (simp add: filterUsers_def string_includes_def sublist_code toLowerCase_ascii_def
          ascii_lower_def ascii_letter_pairs_def example_users_def)
  note t = recomputeVisible_exact
             [of toLowerCase_ascii example_games "''aB''" AllTags example_users AllUsers
                 ascii_lower same_letter_ascii]
  from t g have "filter (game_visible same_letter_ascii ''aB'' AllTags) example_games
                   = filterGames toLowerCase_ascii example_games ''aB'' AllTags"
    by metis
  moreover from t u have "filter (user_visible same_letter_ascii ''aB'' AllUsers) example_users
                   = filterUsers toLowerCase_ascii example_users ''aB'' AllUsers"
    by metis
  ultimately show ?thesis
    using g u fg fu by simp
qed

text \<open>
  As the specification words it, the visible list holds exactly the records in which the
  term occurs without regard to case, whatever the text.  The search for a capital sigma
  does not show the game whose title is a final small sigma, a small form of that letter:
  the built-in lower-cases the term to the other small form.
\<close>

theorem filterGames_case_counterexample:
  "filterGames toLowerCase_sigma [sigma_game] [931] AllTags = []
   \<and> game_visible same_letter_sigma [931] AllTags sigma_game"
proof -
  have "ci_substring same_letter_sigma [931] [962]"
    unfolding ci_substring_def
    by (rule exI [of _ "[]"], rule exI [of _ "[962]"], rule exI [of _ "[]"])
       (simp add: same_letter_sigma_def)
  then show ?thesis
    by (simp add: filterGames_def string_includes_def sublist_code toLowerCase_sigma_def
          sigma_lower_def game_visible_def sigma_game_def)
qed

section \<open>One request through the client\<close>

lemmas run_defs = client_get_def client_post_def client_put_def client_delete_def
  client_request_def request_interceptor_def response_rejected_def fixed_backend_def
  route_backend_def signed_in_def signed_out_def map_if_array_def Let_def

lemma request_interceptor_keeps [simp]:
  "req_url (request_interceptor w c) = req_url c"
  "req_method (request_interceptor w c) = req_method c"
  "req_body (request_interceptor w c) = req_body c"
  by (simp_all add: request_interceptor_def split: option.splits)

lemma client_request_exchanges:
  "exchanges (snd (client_request b w c))
     = exchanges w @ [(request_interceptor w c, b (exchanges w) (request_interceptor w c))]"
  by (simp add: client_request_def Let_def response_rejected_def split: outcome.splits)

lemma client_request_result:
  "fst (client_request b w c) =
     (case b (exchanges w) (request_interceptor w c) of
        Response status d \<Rightarrow>
          if 200 \<le> status \<and> status < 300 then Inr d else Inl (AxiosError (Some (status, d)))
      | NoResponse \<Rightarrow> Inl (AxiosError None))"
  by (cases "b (exchanges w) (request_interceptor w c)") (auto simp: client_request_def Let_def)

lemma client_request_spec:
  assumes "client_request b w c = (r, w1)"
  shows "\<exists>out. exchanges w1 = exchanges w @ [(request_interceptor w c, out)] \<and>
           out = b (exchanges w) (request_interceptor w c) \<and>
           (case r of
              Inr x \<Rightarrow> succeeded out \<and> response_data out = x
            | Inl e \<Rightarrow> \<not> succeeded out)"
proof -
  have "exchanges w1 = exchanges w @ [(request_interceptor w c, b (exchanges w) (request_interceptor w c))]"
    using assms by (metis client_request_exchanges snd_conv)
  moreover have "r = (case b (exchanges w) (request_interceptor w c) of
        Response status d \<Rightarrow>
          if 200 \<le> status \<and> status < 300 then Inr d else Inl (AxiosError (Some (status, d)))
      | NoResponse \<Rightarrow> Inl (AxiosError None))"
    using assms by (metis client_request_result fst_conv)
  ultimately show ?thesis
    by (cases "b (exchanges w) (request_interceptor w c)") auto
qed

lemma client_post_spec:
  assumes "client_post b w url d = (r, w1)"
  shows "\<exists>req out. exchanges w1 = exchanges w @ [(req, out)] \<and>
           req_url req = url \<and> req_method req = POST \<and> req_body req = JsonBody d \<and>
           (case r of
              Inr x \<Rightarrow> succeeded out \<and> response_data out = x
            | Inl e \<Rightarrow> \<not> succeeded out)"
  using client_request_spec [OF assms [unfolded client_post_def]] by auto

lemma client_put_spec:
  assumes "client_put b w url d = (r, w1)"
  shows "\<exists>req out. exchanges w1 = exchanges w @ [(req, out)] \<and>
           req_url req = url \<and> req_method req = PUT \<and> req_body req = JsonBody d \<and>
           (case r of
              Inr x \<Rightarrow> succeeded out \<and> response_data out = x
            | Inl e \<Rightarrow> \<not> succeeded out)"
  using client_request_spec [OF assms [unfolded client_put_def]] by auto

lemma client_request_401:
  "unauthorized (b (exchanges w) (request_interceptor w c)) \<Longrightarrow>
     session_ended (snd (client_request b w c))"
  by (auto simp: client_request_def Let_def response_rejected_def session_ended_def
           split: outcome.splits)

lemma client_request_keeps_ended:
  "session_ended w \<Longrightarrow> session_ended (snd (client_request b w c))"
  by (auto simp: client_request_def Let_def response_rejected_def session_ended_def
           split: outcome.splits)

lemma client_request_session:
  assumes "client_request b w c = (r, w1)"
  shows "\<exists>x. exchanges w1 = exchanges w @ [x] \<and>
           (session_ended w \<or> unauthorized (snd x) \<longrightarrow> session_ended w1)"
proof -
  have e: "exchanges w1 = exchanges w @ [(request_interceptor w c, b (exchanges w) (request_interceptor w c))]"
    using assms by (metis client_request_exchanges snd_conv)
  have "session_ended w \<Longrightarrow> session_ended w1"
    using assms by (metis client_request_keeps_ended snd_conv)
  moreover have "unauthorized (b (exchanges w) (request_interceptor w c)) \<Longrightarrow> session_ended w1"
    using assms by (metis client_request_401 snd_conv)
  ultimately show ?thesis using e by auto
qed

lemma single_request_session:
  assumes "client_request b w c = (r, w1)" "\<exists>x \<in> set (new_exchanges w w1). unauthorized (snd x)"
  shows "session_ended w1"
  using client_request_session [OF assms(1)] assms(2) by (auto simp: new_exchanges_def)

section \<open>Login\<close>

lemma login_loop_trace:
  "\<exists>new. exchanges (snd (login_loop b w u p eps)) = exchanges w @ new"
proof (induction eps arbitrary: w)
  case Nil
  then show ?case by simp
next
  case (Cons ep eps)
  obtain r w1 where c: "client_post b w ep (JObj [(''username'', JStr u), (''password'', JStr p)]) = (r, w1)"
    by (cases "client_post b w ep (JObj [(''username'', JStr u), (''password'', JStr p)])")
  have e: "\<exists>x. exchanges w1 = exchanges w @ [x]"
    using c unfolding client_post_def by (metis client_request_exchanges snd_conv)
  show ?case
  proof (cases r)
    case (Inl a)
    with c e Cons.IH [of w1] show ?thesis by auto
  next
    case (Inr d)
    with c e show ?thesis by auto
  qed
qed


lemma login_loop_spec:
  "login_loop b w u p eps = (r, w') \<Longrightarrow>
    \<exists>new. exchanges w' = exchanges w @ new \<and>
      map (req_url \<circ> fst) new = take (length new) eps \<and>
      (\<forall>x \<in> set new. req_method (fst x) = POST \<and>
         req_body (fst x) = JsonBody (JObj [(''username'', JStr u), (''password'', JStr p)])) \<and>
      (\<forall>x \<in> set (butlast new). \<not> succeeded (snd x)) \<and>
      (case r of
         Inr d \<Rightarrow> new \<noteq> [] \<and> succeeded (snd (last new)) \<and> response_data (snd (last new)) = d
       | Inl e \<Rightarrow> e = Error ''All login endpoints failed'' \<and> length new = length eps \<and>
                  (\<forall>x \<in> set new. \<not> succeeded (snd x)))"
proof (induction eps arbitrary: w)
  case Nil
  then show ?case by auto
next
  case (Cons ep eps)
  obtain r1 w1 where c: "client_post b w ep (JObj [(''username'', JStr u), (''password'', JStr p)]) = (r1, w1)"
    by (cases "client_post b w ep (JObj [(''username'', JStr u), (''password'', JStr p)])")
  from client_post_spec [OF c] obtain req out where
    e: "exchanges w1 = exchanges w @ [(req, out)]" and
    q: "req_url req = ep" "req_method req = POST"
       "req_body req = JsonBody (JObj [(''username'', JStr u), (''password'', JStr p)])" and
    o: "case r1 of Inr x \<Rightarrow> succeeded out \<and> response_data out = x | Inl e \<Rightarrow> \<not> succeeded out"
    by blast
  show ?case
  proof (cases r1)
    case (Inr d)
    with c Cons.prems have "r = Inr d" "w' = w1" by auto
    with e q o Inr show ?thesis
      by (intro exI [of _ "[(req, out)]"]) auto
  next
    case (Inl a)
    with c Cons.prems have l: "login_loop b w1 u p eps = (r, w')" by auto
    from Cons.IH [OF l] obtain new where
      n: "exchanges w' = exchanges w1 @ new"
         "map (req_url \<circ> fst) new = take (length new) eps"
         "\<forall>x \<in> set new. req_method (fst x) = POST \<and>
            req_body (fst x) = JsonBody (JObj [(''username'', JStr u), (''password'', JStr p)])"
         "\<forall>x \<in> set (butlast new). \<not> succeeded (snd x)"
         "case r of
            Inr d \<Rightarrow> new \<noteq> [] \<and> succeeded (snd (last new)) \<and> response_data (snd (last new)) = d
          | Inl e \<Rightarrow> e = Error ''All login endpoints failed'' \<and> length new = length eps \<and>
                  (\<forall>x \<in> set new. \<not> succeeded (snd x))"
      by blast
    from o Inl have f: "\<not> succeeded out" by simp
    show ?thesis
    proof (intro exI [of _ "(req, out) # new"] conjI)
      show "exchanges w' = exchanges w @ (req, out) # new" using n(1) e by simp
      show "map (req_url \<circ> fst) ((req, out) # new) = take (length ((req, out) # new)) (ep # eps)"
        using n(2) q(1) by simp
      show "\<forall>x \<in> set ((req, out) # new). req_method (fst x) = POST \<and>
         req_body (fst x) = JsonBody (JObj [(''username'', JStr u), (''password'', JStr p)])"
        using n(3) q by simp
      show "\<forall>x \<in> set (butlast ((req, out) # new)). \<not> succeeded (snd x)"
        using n(4) f by (auto split: if_splits)
      show "case r of
         Inr d \<Rightarrow> (req, out) # new \<noteq> [] \<and> succeeded (snd (last ((req, out) # new))) \<and>
                   response_data (snd (last ((req, out) # new))) = d
       | Inl e \<Rightarrow> e = Error ''All login endpoints failed'' \<and>
                  length ((req, out) # new) = length (ep # eps) \<and>
                  (\<forall>x \<in> set ((req, out) # new). \<not> succeeded (snd x))"
        using n(5) f by (cases r) auto
    qed
  qed
qed

text \<open>
  C9.  \<^verbatim>\<open>login\<close> posts the credentials to the five endpoints in their fixed order, one
  after the other, and stops at the first request that succeeds: every request before the
  last one failed, and no request follows a success.  It returns the data of that first
  success.  It throws, with \<^verbatim>\<open>All login endpoints failed\<close>, exactly when all five requests
  were made and all five failed.
\<close>

theorem login_first_success:
  assumes "login backend w username password = (r, w')"
  shows "exchanges w' = exchanges w @ new_exchanges w w' \<and>
   map (req_url \<circ> fst) (new_exchanges w w')
     = take (length (new_exchanges w w')) login_endpoints \<and>
   (\<forall>x \<in> set (new_exchanges w w'). req_method (fst x) = POST \<and>
      req_body (fst x)
        = JsonBody (JObj [(''username'', JStr username), (''password'', JStr password)])) \<and>
   (\<forall>x \<in> set (butlast (new_exchanges w w')). \<not> succeeded (snd x)) \<and>
   (case r of
      Inr d \<Rightarrow> new_exchanges w w' \<noteq> [] \<and> succeeded (snd (last (new_exchanges w w'))) \<and>
                response_data (snd (last (new_exchanges w w'))) = d
    | Inl e \<Rightarrow> e = Error ''All login endpoints failed'') \<and>
   (isl r \<longleftrightarrow> length (new_exchanges w w') = 5 \<and>
                 (\<forall>x \<in> set (new_exchanges w w'). \<not> succeeded (snd x)))"
proof -
  from login_loop_spec [OF assms [unfolded login_def]] obtain new where
      n: "exchanges w' = exchanges w @ new"
         "map (req_url \<circ> fst) new = take (length new) login_endpoints"
         "\<forall>x \<in> set new. req_method (fst x) = POST \<and>
            req_body (fst x) = JsonBody (JObj [(''username'', JStr username), (''password'', JStr password)])"
         "\<forall>x \<in> set (butlast new). \<not> succeeded (snd x)"
         "case r of
            Inr d \<Rightarrow> new \<noteq> [] \<and> succeeded (snd (last new)) \<and> response_data (snd (last new)) = d
          | Inl e \<Rightarrow> e = Error ''All login endpoints failed'' \<and> length new = length login_endpoints \<and>
                  (\<forall>x \<in> set new. \<not> succeeded (snd x))"
    by blast
  from n(1) have eq: "new_exchanges w w' = new" by (simp add: new_exchanges_def)
  have len: "length login_endpoints = 5" by (simp add: login_endpoints_def)
  show ?thesis
    unfolding eq using n len by (cases r) (auto dest: last_in_set)
qed


theorem login_first_success_witness:
  "login (route_backend [(''/auth/login'', Response 200 (JObj [(''token'', JStr ''abc'')]))]
            (Response 404 JNull)) signed_out ''admin'' ''pw''
     = (fst (login (route_backend [(''/auth/login'', Response 200 (JObj [(''token'', JStr ''abc'')]))]
            (Response 404 JNull)) signed_out ''admin'' ''pw''),
        snd (login (route_backend [(''/auth/login'', Response 200 (JObj [(''token'', JStr ''abc'')]))]
            (Response 404 JNull)) signed_out ''admin'' ''pw''))
   \<and> fst (login (route_backend [(''/auth/login'', Response 200 (JObj [(''token'', JStr ''abc'')]))]
            (Response 404 JNull)) signed_out ''admin'' ''pw'')
       = Inr (JObj [(''token'', JStr ''abc'')])
   \<and> map (req_url \<circ> fst)
        (new_exchanges signed_out
           (snd (login (route_backend [(''/auth/login'', Response 200 (JObj [(''token'', JStr ''abc'')]))]
            (Response 404 JNull)) signed_out ''admin'' ''pw'')))
       = [''/admin/auth/login'', ''/admin/login'', ''/auth/login'']
   \<and> isl (fst (login (fixed_backend NoResponse) signed_out ''admin'' ''pw''))
   \<and> length (new_exchanges signed_out
           (snd (login (fixed_backend NoResponse) signed_out ''admin'' ''pw''))) = 5"
  using
    login_first_success
      [of "route_backend [(''/auth/login'', Response 200 (JObj [(''token'', JStr ''abc'')]))]
            (Response 404 JNull)" signed_out "''admin''" "''pw''"
          "fst (login (route_backend [(''/auth/login'', Response 200 (JObj [(''token'', JStr ''abc'')]))]
            (Response 404 JNull)) signed_out ''admin'' ''pw'')"
          "snd (login (route_backend [(''/auth/login'', Response 200 (JObj [(''token'', JStr ''abc'')]))]
            (Response 404 JNull)) signed_out ''admin'' ''pw'')"]
    login_first_success
      [of "fixed_backend NoResponse" signed_out "''admin''" "''pw''"
          "fst (login (fixed_backend NoResponse) signed_out ''admin'' ''pw'')"
          "snd (login (fixed_backend NoResponse) signed_out ''admin'' ''pw'')"]
  by (simp add: login_def login_endpoints_def new_exchanges_def signed_out_def run_defs)

section \<open>The end of a session\<close>

lemma map_if_array_snd: "snd (map_if_array f r) = snd r"
  by (auto simp: map_if_array_def split: prod.splits sum.splits json.splits)

lemma list_request_session:
  assumes "map_if_array f (client_request b w c) = (r, w1)"
    "\<exists>x \<in> set (new_exchanges w w1). unauthorized (snd x)"
  shows "session_ended w1"
proof -
  have "snd (client_request b w c) = w1"
    using assms(1) by (metis map_if_array_snd snd_conv)
  then have "client_request b w c = (fst (client_request b w c), w1)"
    by (metis prod.collapse)
  from single_request_session [OF this assms(2)] show ?thesis .
qed

lemma login_loop_session:
  "login_loop b w u p eps = (r, w') \<Longrightarrow>
     session_ended w \<or> (\<exists>x \<in> set (new_exchanges w w'). unauthorized (snd x)) \<Longrightarrow>
     session_ended w'"
proof (induction eps arbitrary: w)
  case Nil
  then show ?case by (auto simp: new_exchanges_def)
next
  case (Cons ep eps)
  obtain r1 w1 where c: "client_post b w ep (JObj [(''username'', JStr u), (''password'', JStr p)]) = (r1, w1)"
    by (cases "client_post b w ep (JObj [(''username'', JStr u), (''password'', JStr p)])")
  from client_request_session [OF c [unfolded client_post_def]] obtain x where
    x: "exchanges w1 = exchanges w @ [x]"
       "session_ended w \<or> unauthorized (snd x) \<longrightarrow> session_ended w1"
    by blast
  show ?case
  proof (cases r1)
    case (Inr d)
    with c Cons.prems(1) have "w' = w1" by auto
    with x Cons.prems(2) show ?thesis by (auto simp: new_exchanges_def)
  next
    case (Inl a)
    with c Cons.prems(1) have l: "login_loop b w1 u p eps = (r, w')" by auto
    from login_loop_trace [of b w1 u p eps] l obtain new where
      n: "exchanges w' = exchanges w1 @ new" by auto
    with x have "new_exchanges w w' = x # new_exchanges w1 w'"
      by (simp add: new_exchanges_def)
    with Cons.prems(2) x(2) have "session_ended w1 \<or> (\<exists>x \<in> set (new_exchanges w1 w'). unauthorized (snd x))"
      by auto
    from Cons.IH [OF l this] show ?thesis .
  qed
qed

text \<open>
  C4.  Whatever operation of the client is called, with whatever arguments: when one of the
  responses it receives has status 401, then after the call the \<^verbatim>\<open>admin_token\<close> cookie is
  removed and the window is at the login route, so that the session store finds no session
  when the page loads.  No operation has a way around the interceptor.
\<close>

theorem unauthorized_ends_session:
  assumes "run_api backend w call = (r, w')"
    and "\<exists>x \<in> set (new_exchanges w w'). unauthorized (snd x)"
  shows "cookies w' ''admin_token'' = None \<and> location_href w' = ''/login'' \<and>
         \<not> isAuthenticated_on_load w'"
proof -
  have "session_ended w'"
  proof (cases call)
    case (Login u p)
    with assms login_loop_session [of backend w u p login_endpoints r w'] show ?thesis
      by (simp add: login_def)
  next
    case GetGames
    with assms list_request_session show ?thesis
      by (simp add: getGames_def client_get_def)
  next
    case (CreateGame d)
    with assms single_request_session show ?thesis
      by (simp add: createGame_def client_post_def)
  next
    case (UpdateGame d)
    with assms single_request_session show ?thesis
      by (simp add: updateGame_def client_put_def)
  next
    case GetAdditionalTags
    with assms list_request_session show ?thesis
      by (simp add: getAdditionalTags_def client_get_def)
  next
    case (CreateAdditionalTag n)
    with assms single_request_session show ?thesis
      by (simp add: createAdditionalTag_def client_post_def)
  next
    case (DeleteAdditionalTag i)
    with assms single_request_session show ?thesis
      by (simp add: deleteAdditionalTag_def client_delete_def)
  next
    case GetUsers
    with assms list_request_session show ?thesis
      by (simp add: getUsers_def client_get_def)
  next
    case (SetSubscription i s)
    with assms single_request_session show ?thesis
      by (simp add: setSubscription_def client_put_def)
  next
    case (UploadImage f)
    with assms single_request_session show ?thesis
      by (simp add: uploadImage_def)
  qed
  then show ?thesis
    by (simp add: session_ended_def isAuthenticated_on_load_def)
qed


theorem unauthorized_ends_session_witness:
  "run_api (fixed_backend (Response 401 JNull)) signed_in GetUsers
     = (fst (run_api (fixed_backend (Response 401 JNull)) signed_in GetUsers),
        snd (run_api (fixed_backend (Response 401 JNull)) signed_in GetUsers))
   \<and> (\<exists>x \<in> set (new_exchanges signed_in
                    (snd (run_api (fixed_backend (Response 401 JNull)) signed_in GetUsers))).
         unauthorized (snd x))
   \<and> isAuthenticated_on_load signed_in
   \<and> cookies (snd (run_api (fixed_backend (Response 401 JNull)) signed_in GetUsers))
        ''admin_token'' = None
   \<and> location_href (snd (run_api (fixed_backend (Response 401 JNull)) signed_in GetUsers))
        = ''/login''
   \<and> \<not> isAuthenticated_on_load
          (snd (run_api (fixed_backend (Response 401 JNull)) signed_in GetUsers))"
  using
    unauthorized_ends_session
      [of "fixed_backend (Response 401 JNull)" signed_in GetUsers
          "fst (run_api (fixed_backend (Response 401 JNull)) signed_in GetUsers)"
          "snd (run_api (fixed_backend (Response 401 JNull)) signed_in GetUsers)"]
  by (simp add: getUsers_def new_exchanges_def isAuthenticated_on_load_def run_defs)

section \<open>Submitting the game form\<close>

lemma uploadImage_spec:
  assumes "uploadImage b w f = (r, w1)"
  shows "\<exists>req out. exchanges w1 = exchanges w @ [(req, out)] \<and> is_upload_request f req \<and>
           (case r of
              Inr x \<Rightarrow> succeeded out \<and> response_data out = x
            | Inl e \<Rightarrow> \<not> succeeded out)"
  using client_request_spec [OF assms [unfolded uploadImage_def]]
  by (auto simp: is_upload_request_def)

lemma form_uploadImage_spec:
  assumes "form_uploadImage b f st w = (r, st1, w1)"
  shows "\<exists>req out. exchanges w1 = exchanges w @ [(req, out)] \<and> is_upload_request f req \<and>
           (case r of
              Inr u \<Rightarrow> succeeded out \<and> get_prop (response_data out) ''url'' = Inr u \<and> truthy u
            | Inl e \<Rightarrow> True)"
proof -
  obtain r0 w0 where u: "uploadImage b w f = (r0, w0)"
    by (cases "uploadImage b w f")
  from uploadImage_spec [OF u] obtain req out where
    e: "exchanges w0 = exchanges w @ [(req, out)]" "is_upload_request f req" and
    o: "case r0 of Inr x \<Rightarrow> succeeded out \<and> response_data out = x | Inl e \<Rightarrow> \<not> succeeded out"
    by blast
  from assms u have w: "w1 = w0"
    by (auto simp: form_uploadImage_def split: sum.splits if_splits)
  from assms u o have "case r of
              Inr u \<Rightarrow> succeeded out \<and> get_prop (response_data out) ''url'' = Inr u \<and> truthy u
            | Inl e \<Rightarrow> True"
    by (auto simp: form_uploadImage_def js_and_def split: sum.splits if_splits)
  with e w show ?thesis by blast
qed

lemma gameData_imageUrl [simp]: "map_of (gameData_of fd u) ''imageUrl'' = Some u"
  by (simp add: gameData_of_def)

lemma uploadImage_exact:
  assumes "uploadImage b w f = (r, w1)"
  shows "\<exists>req. is_upload_request f req \<and>
           exchanges w1 = exchanges w @ [(req, b (exchanges w) req)] \<and>
           (case r of
              Inr x \<Rightarrow> succeeded (b (exchanges w) req) \<and> response_data (b (exchanges w) req) = x
            | Inl e \<Rightarrow> \<not> succeeded (b (exchanges w) req))"
  using client_request_spec [OF assms [unfolded uploadImage_def]]
  by (auto simp: is_upload_request_def)

lemma uploaded_url_failed: "\<not> succeeded out \<Longrightarrow> uploaded_url out = None"
  by (cases out) (auto simp: uploaded_url_def)

lemma form_uploadImage_exact:
  assumes "form_uploadImage b f st w = (r, st1, w1)"
  shows "\<exists>req. is_upload_request f req \<and>
           exchanges w1 = exchanges w @ [(req, b (exchanges w) req)] \<and>
           formData st1 = formData st \<and>
           (case uploaded_url (b (exchanges w) req) of None \<Rightarrow> isl r | Some u \<Rightarrow> r = Inr u)"
proof -
  obtain r0 w0 where u: "uploadImage b w f = (r0, w0)"
    by (cases "uploadImage b w f")
  from uploadImage_exact [OF u] obtain req where
    q: "is_upload_request f req" and
    e: "exchanges w0 = exchanges w @ [(req, b (exchanges w) req)]" and
    o: "case r0 of
          Inr x \<Rightarrow> succeeded (b (exchanges w) req) \<and> response_data (b (exchanges w) req) = x
        | Inl e \<Rightarrow> \<not> succeeded (b (exchanges w) req)"
    by blast
  from assms u have w: "w1 = w0" and s: "formData st1 = formData st"
    by (auto simp: form_uploadImage_def split: sum.splits if_splits)
  have "case uploaded_url (b (exchanges w) req) of None \<Rightarrow> isl r | Some u \<Rightarrow> r = Inr u"
  proof (cases r0)
    case (Inl a)
    with o have "uploaded_url (b (exchanges w) req) = None"
      by (simp add: uploaded_url_failed)
    moreover from assms u Inl have "isl r"
      by (auto simp: form_uploadImage_def)
    ultimately show ?thesis by simp
  next
    case (Inr d)
    with o obtain status where out: "b (exchanges w) req = Response status d"
      and ok: "200 \<le> status" "status < 300"
      by (cases "b (exchanges w) req") auto
    from assms u Inr show ?thesis
      unfolding out
      by (auto simp: form_uploadImage_def uploaded_url_def ok js_and_def
               split: sum.splits if_splits)
  qed
  with q e w s show ?thesis by blast
qed

lemma save_exact:
  assumes "(case game of
              Some g \<Rightarrow> updateGame b w (JObj ((''id'', i g) # gameData_of fd u))
            | None \<Rightarrow> createGame b w (JObj (gameData_of fd u))) = (r, w1)"
  shows "\<exists>req. exchanges w1 = exchanges w @ [(req, b (exchanges w) req)] \<and>
           is_save_request game req \<and>
           req_body req
             = JsonBody (JObj ((case game of None \<Rightarrow> [] | Some g \<Rightarrow> [(''id'', i g)])
                               @ gameData_of fd u)) \<and>
           (isl r \<longleftrightarrow> \<not> succeeded (b (exchanges w) req))"
proof (cases game)
  case None
  with assms have "client_request b w
       \<lparr>req_method = POST, req_url = ''/admin/games/game'',
        req_headers = [(''Content-Type'', ''application/json'')],
        req_body = JsonBody (JObj (gameData_of fd u))\<rparr> = (r, w1)"
    by (simp add: createGame_def client_post_def)
  from client_request_spec [OF this] None show ?thesis
    by (cases r) (auto simp: is_save_request_def)
next
  case (Some g)
  with assms have "client_request b w
       \<lparr>req_method = PUT, req_url = ''/admin/games/game'',
        req_headers = [(''Content-Type'', ''application/json'')],
        req_body = JsonBody (JObj ((''id'', i g) # gameData_of fd u))\<rparr> = (r, w1)"
    by (simp add: updateGame_def client_put_def)
  from client_request_spec [OF this] Some show ?thesis
    by (cases r) (auto simp: is_save_request_def)
qed

text \<open>
  C2, as amended.  When a new image file is selected, a submit first sends the upload of
  that file.  When the upload does not produce a URL, it stays the only request and no
  callback of the parent is called.  When it produces one, exactly one more request follows,
  built after the reply to the upload: the create (for a new record) or the update (for an
  existing one).  Its payload is the draft, field by field, with the identity of the record
  for an update, without the \<^verbatim>\<open>null\<close> and \<^verbatim>\<open>undefined\<close> tag references, and with the
  uploaded URL as \<^verbatim>\<open>imageUrl\<close>; the selected file and the preview URL are not in it.  The
  draft that the form holds is the same after the submit as before.
\<close>

theorem handleSubmit_upload_before_save:
  assumes f: "selectedFile st = Some f"
    and h: "handleSubmit backend game st w = (cbs, st', w')"
  shows "formData st' = formData st \<and>
    (\<exists>ureq. is_upload_request f ureq \<and>
       (let uout = backend (exchanges w) ureq in
        case uploaded_url uout of
          None \<Rightarrow> exchanges w' = exchanges w @ [(ureq, uout)] \<and> cbs = []
        | Some u \<Rightarrow>
            (\<exists>sreq.
               (let sout = backend (exchanges w @ [(ureq, uout)]) sreq in
                exchanges w' = exchanges w @ [(ureq, uout), (sreq, sout)] \<and>
                is_save_request game sreq \<and>
                req_body sreq =
                  JsonBody (JObj
                    ((case game of
                        None \<Rightarrow> []
                      | Some g \<Rightarrow>
                          [(''id'',
                            js_or (case game_id g of None \<Rightarrow> JUndefined | Some i \<Rightarrow> JStr i)
                                  (JStr (game_uid g)))]) @
                     [(''title'', JStr (title (formData st))),
                      (''description'', JStr (description (formData st))),
                      (''path'', JStr (path (formData st))),
                      (''imageUrl'', u),
                      (''mainTag'', JStr (main_tag_str (mainTag (formData st)))),
                      (''additionalTags'',
                         JArr (filter (\<lambda>tag. tag \<noteq> JNull \<and> tag \<noteq> JUndefined)
                                 (additionalTags (formData st)))),
                      (''youtubeLink'', JStr (youtubeLink (formData st))),
                      (''gameImages'', JArr (map JStr (gameImages (formData st))))])) \<and>
                cbs = (if succeeded sout then [OnSave, OnClose] else [])))))"
proof -
  let ?st1 = "st\<lparr>loading := True, error := []\<rparr>"
  obtain r1 st2 w2 where u: "form_uploadImage backend f ?st1 w = (r1, st2, w2)"
    by (cases "form_uploadImage backend f ?st1 w")
  from form_uploadImage_exact [OF u] obtain ureq where
    q: "is_upload_request f ureq" and
    e: "exchanges w2 = exchanges w @ [(ureq, backend (exchanges w) ureq)]" and
    d: "formData st2 = formData st" and
    o: "case uploaded_url (backend (exchanges w) ureq) of None \<Rightarrow> isl r1 | Some u \<Rightarrow> r1 = Inr u"
    by auto
  show ?thesis
  proof (cases "uploaded_url (backend (exchanges w) ureq)")
    case None
    with o obtain a where "r1 = Inl a" by (cases r1) auto
    with f h u have "w' = w2" "cbs = []" "st' = save_failed st2"
      by (auto simp: handleSubmit_def Let_def)
    with q e d None show ?thesis
      apply (intro conjI exI [of _ ureq])
        apply (simp add: save_failed_def)
       apply simp
      apply (simp add: Let_def)
      done
  next
    case (Some url)
    with o have r1: "r1 = Inr url" by simp
    let ?i = "\<lambda>g. js_or (case game_id g of None \<Rightarrow> JUndefined | Some i \<Rightarrow> JStr i) (JStr (game_uid g))"
    obtain r3 w3 where s: "(case game of
              Some g \<Rightarrow> updateGame backend w2 (JObj ((''id'', ?i g) # gameData_of (formData st) url))
            | None \<Rightarrow> createGame backend w2 (JObj (gameData_of (formData st) url))) = (r3, w3)"
      by (cases "(case game of
              Some g \<Rightarrow> updateGame backend w2 (JObj ((''id'', ?i g) # gameData_of (formData st) url))
            | None \<Rightarrow> createGame backend w2 (JObj (gameData_of (formData st) url)))")
    from save_exact [OF s] obtain sreq where
      e2: "exchanges w3 = exchanges w2 @ [(sreq, backend (exchanges w2) sreq)]" and
      q2: "is_save_request game sreq" and
      b2: "req_body sreq
             = JsonBody (JObj ((case game of None \<Rightarrow> [] | Some g \<Rightarrow> [(''id'', ?i g)])
                               @ gameData_of (formData st) url))" and
      o2: "isl r3 \<longleftrightarrow> \<not> succeeded (backend (exchanges w2) sreq)"
      by auto
    from f h u s r1 have w: "w' = w3"
      and c: "cbs = (if isl r3 then [] else [OnSave, OnClose])"
      and t: "formData st' = formData st2"
      by (auto simp: handleSubmit_def Let_def save_failed_def split: sum.splits)
    from q e e2 q2 b2 o2 w c t d Some show ?thesis
      apply (intro conjI exI [of _ ureq])
        apply simp
       apply simp
      apply (simp add: Let_def)
      apply (simp add: gameData_of_def)
      done
  qed
qed

theorem handleSubmit_upload_before_save_witness:
  "selectedFile example_draft
     = Some \<lparr>file_name = ''new.png'', file_type = ''image/png'', file_size = 1024\<rparr>
   \<and> handleSubmit accepting_backend (None :: char game option) example_draft signed_in
     = (fst (handleSubmit accepting_backend (None :: char game option) example_draft signed_in),
        fst (snd (handleSubmit accepting_backend (None :: char game option) example_draft
                    signed_in)),
        snd (snd (handleSubmit accepting_backend (None :: char game option) example_draft
                    signed_in)))
   \<and> fst (handleSubmit accepting_backend (None :: char game option) example_draft signed_in)
     = [OnSave, OnClose]
   \<and> map (\<lambda>x. (req_method (fst x), req_url (fst x), body_prop (fst x) ''imageUrl''))
        (new_exchanges signed_in
           (snd (snd (handleSubmit accepting_backend (None :: char game option) example_draft
                        signed_in))))
     = [(POST, ''/admin/games/upload/picture'', None),
        (POST, ''/admin/games/game'', Some (JStr ''/uploads/new.png''))]"
  using
    handleSubmit_upload_before_save
      [of example_draft "\<lparr>file_name = ''new.png'', file_type = ''image/png'', file_size = 1024\<rparr>"
          accepting_backend "None :: char game option" signed_in
          "fst (handleSubmit accepting_backend (None :: char game option) example_draft signed_in)"
          "fst (snd (handleSubmit accepting_backend (None :: char game option) example_draft
                       signed_in))"
          "snd (snd (handleSubmit accepting_backend (None :: char game option) example_draft
                       signed_in))"]
  by (simp add: handleSubmit_def form_uploadImage_def uploadImage_def createGame_def
        gameData_of_def js_and_def body_prop_def new_exchanges_def example_draft_def
        accepting_backend_def save_failed_def run_defs)

text \<open>
  As the specification words it, the URL that the upload returned is merged into the draft
  before the record is saved.  After a submit in which the upload returned
  \<^verbatim>\<open>/uploads/new.png\<close> and the record was created with that URL, the draft of the form
  still has the image reference \<^verbatim>\<open>old.png\<close>.
\<close>

theorem handleSubmit_draft_counterexample:
  "fst (handleSubmit accepting_backend (None :: char game option) example_draft signed_in)
     = [OnSave, OnClose]
   \<and> map (\<lambda>x. body_prop (fst x) ''imageUrl'')
        (new_exchanges signed_in
           (snd (snd (handleSubmit accepting_backend (None :: char game option) example_draft
                        signed_in))))
     = [None, Some (JStr ''/uploads/new.png'')]
   \<and> imageUrl (formData (fst (snd (handleSubmit accepting_backend (None :: char game option)
                                      example_draft signed_in))))
     = ''old.png''"
  by (simp add: handleSubmit_def form_uploadImage_def uploadImage_def createGame_def
        gameData_of_def js_and_def body_prop_def new_exchanges_def example_draft_def
        accepting_backend_def save_failed_def run_defs)

section \<open>Secondary tag references without null entries\<close>

text \<open>
  What \<^verbatim>\<open>handleSubmit\<close> posts: the tag selection of the draft without its \<^verbatim>\<open>null\<close> and
  \<^verbatim>\<open>undefined\<close> entries.  What the callback of \<^verbatim>\<open>getGames\<close> returns for one game of a
  bare collection: tag references without such entries.
\<close>

lemma gameData_additionalTags:
  "map_of (gameData_of fd u) ''additionalTags''
     = Some (JArr (filter (\<lambda>tag. tag \<noteq> JNull \<and> tag \<noteq> JUndefined) (additionalTags fd)))"
  by (simp add: gameData_of_def)

lemma example_draft_payload:
  "map (\<lambda>x. body_prop (fst x) ''additionalTags'')
     (new_exchanges signed_in
        (snd (snd (handleSubmit accepting_backend (None :: char game option) example_draft
                     signed_in))))
   = [None, Some (JArr [JStr ''t1'', JStr ''t2''])]"
  by (simp add: handleSubmit_def form_uploadImage_def uploadImage_def createGame_def
        gameData_of_def js_and_def body_prop_def new_exchanges_def example_draft_def
        accepting_backend_def save_failed_def run_defs)

lemma map_of_set_prop: "map_of (set_prop k v kvs) = (map_of kvs)(k \<mapsto> v)"
  by (induction kvs) auto

lemma getGames_map_strips:
  assumes "getGames_map game = Inr game'"
  shows "\<exists>ts. get_prop game' ''additionalTags'' = Inr (JArr ts) \<and>
           JNull \<notin> set ts \<and> JUndefined \<notin> set ts"
  using assms
  by (auto simp: getGames_map_def map_of_set_prop split: sum.splits json.splits)

lemma save_spec_tags:
  assumes "(case game of
              Some g \<Rightarrow> updateGame b w (JObj ((''id'', i g) # gameData_of fd u))
            | None \<Rightarrow> createGame b w (JObj (gameData_of fd u))) = (r, w1)"
  shows "\<exists>req out. exchanges w1 = exchanges w @ [(req, out)] \<and>
           body_prop req ''additionalTags''
             = Some (JArr (filter (\<lambda>tag. tag \<noteq> JNull \<and> tag \<noteq> JUndefined) (additionalTags fd)))"
proof (cases game)
  case None
  with assms have "client_post b w ''/admin/games/game'' (JObj (gameData_of fd u)) = (r, w1)"
    by (simp add: createGame_def)
  from client_post_spec [OF this] show ?thesis
    by (auto simp: body_prop_def gameData_additionalTags)
next
  case (Some g)
  with assms have "client_put b w ''/admin/games/game'' (JObj ((''id'', i g) # gameData_of fd u)) = (r, w1)"
    by (simp add: updateGame_def)
  from client_put_spec [OF this] show ?thesis
    by (auto simp: body_prop_def gameData_additionalTags)
qed

lemma handleSubmit_tags_stripped:
  assumes h: "handleSubmit backend game st w = (cbs, st', w')"
  shows "\<forall>x \<in> set (new_exchanges w w'). req_url (fst x) = ''/admin/games/game'' \<longrightarrow>
           body_prop (fst x) ''additionalTags''
             = Some (JArr (filter (\<lambda>tag. tag \<noteq> JNull \<and> tag \<noteq> JUndefined)
                             (additionalTags (formData st))))"
proof -
  let ?st1 = "st\<lparr>loading := True, error := []\<rparr>"
  let ?i = "\<lambda>g. js_or (case game_id g of None \<Rightarrow> JUndefined | Some i \<Rightarrow> JStr i) (JStr (game_uid g))"
  let ?save = "\<lambda>w2 url. (case game of
              Some g \<Rightarrow> updateGame backend w2 (JObj ((''id'', ?i g) # gameData_of (formData st) url))
            | None \<Rightarrow> createGame backend w2 (JObj (gameData_of (formData st) url)))"
  show ?thesis
  proof (cases "selectedFile st")
    case None
    obtain r3 w3 where s: "?save w (JStr (imageUrl (formData st))) = (r3, w3)"
      by (cases "?save w (JStr (imageUrl (formData st)))")
    from h None s have "w' = w3"
      by (auto simp: handleSubmit_def Let_def split: sum.splits)
    with save_spec_tags [OF s] show ?thesis
      by (auto simp: new_exchanges_def)
  next
    case (Some f)
    obtain r1 st2 w2 where u: "form_uploadImage backend f ?st1 w = (r1, st2, w2)"
      by (cases "form_uploadImage backend f ?st1 w")
    from form_uploadImage_spec [OF u] obtain ureq uout where
      e: "exchanges w2 = exchanges w @ [(ureq, uout)]" "is_upload_request f ureq"
      by blast
    from e(2) have nu: "req_url ureq \<noteq> ''/admin/games/game''"
      by (simp add: is_upload_request_def)
    show ?thesis
    proof (cases r1)
      case (Inl a)
      with Some h u have "w' = w2"
        by (auto simp: handleSubmit_def Let_def)
      with e nu show ?thesis by (auto simp: new_exchanges_def)
    next
      case (Inr url)
      obtain r3 w3 where s: "?save w2 url = (r3, w3)"
        by (cases "?save w2 url")
      from Some h u s Inr have "w' = w3"
        by (auto simp: handleSubmit_def Let_def split: sum.splits)
      with save_spec_tags [OF s] e nu show ?thesis
        by (auto simp: new_exchanges_def)
    qed
  qed
qed

text \<open>
  C3.  A list response in the envelope shape, with one game whose tag references are
  \<^verbatim>\<open>["t1", null]\<close>: \<^verbatim>\<open>getGames\<close> returns the envelope as it came, and the collection that
  the games page takes from it and renders still holds the \<^verbatim>\<open>null\<close> reference.
\<close>

theorem getGames_envelope_keeps_null:
  "fst (getGames
          (fixed_backend (Response 200
             (JObj [(''success'', JBool True),
                    (''data'', JArr [JObj [(''_id'', JStr ''g1''),
                                           (''additionalTags'', JArr [JStr ''t1'', JNull])]])])))
          signed_in)
     = Inr (JObj [(''success'', JBool True),
                  (''data'', JArr [JObj [(''_id'', JStr ''g1''),
                                         (''additionalTags'', JArr [JStr ''t1'', JNull])]])])
   \<and> list_of_response
        (JObj [(''success'', JBool True),
               (''data'', JArr [JObj [(''_id'', JStr ''g1''),
                                      (''additionalTags'', JArr [JStr ''t1'', JNull])]])])
     = Inr (JArr [JObj [(''_id'', JStr ''g1''),
                        (''additionalTags'', JArr [JStr ''t1'', JNull])]])"
  by (simp add: getGames_def run_defs list_of_response_def js_or_def)

section \<open>The shape of a list response\<close>





lemma property_set_prop:
  "property (JObj (set_prop k v kvs)) k' = (if k' = k then v else property (JObj kvs) k')"
  by (simp add: map_of_set_prop)







section \<open>Creating a tag\<close>

text \<open>
  C7.  The tags page submits the form with the name \<^verbatim>\<open>RPG\<close> and the classifier
  \<^verbatim>\<open>Software\<close> selected.  The create request that goes out has the body \<^verbatim>\<open>{name: "RPG"}\<close>:
  it carries the name and no \<^verbatim>\<open>belongsTo\<close>.  The request after it is the reload of the
  list.
\<close>

theorem handleCreateTag_body_lacks_belongsTo:
  "map (\<lambda>x. (req_method (fst x), req_url (fst x), req_body (fst x),
              body_prop (fst x) ''belongsTo''))
     (exchanges (snd (handleCreateTag (fixed_backend (Response 200 (JArr [])))
        \<lparr>tags = JArr [], tags_loading = False, newTagName = ''RPG'',
         newTagBelongsTo = ''Software'', showCreateForm = True, creating = False,
         tags_error = []\<rparr> signed_in)))
   = [(POST, ''/admin/games/additional_tags'', JsonBody (JObj [(''name'', JStr ''RPG'')]), None),
      (GET, ''/admin/games/additional_tags'', NoBody, None)]"
  by (simp add: handleCreateTag_def fetchTags_def createAdditionalTag_def getAdditionalTags_def
        list_of_response_def trim_def is_space_def body_prop_def run_defs)

end
